theory Spec2Isabelle
  imports Main
begin

section \<open>The deployment script \<open>deploy.py\<close> as a shallow embedding\<close>

text \<open>
  The script talks to its surroundings only through library calls: the Elastic Beanstalk,
  S3 and STS clients, the build subprocess, the file system, the clock, \<open>print\<close> and
  \<open>time.sleep\<close>. The embedding makes every answer of the surroundings a field of a
  record \<open>world\<close>, and every call the script issues an \<open>event\<close> of a trace, in program
  order. An exception is a value \<open>Inl e\<close>; the trace up to the raising call is kept.
  Argument parsing and session creation (lines 20 to 70 and 121 to 127) are outside the
  model: a run starts at line 130 with the parsed arguments and a usable session.
\<close>

subsection \<open>Strings and paths (the library functions the script calls)\<close>

type_synonym path = string
type_synonym bytes = string

text \<open>An archive member: the name it is stored under and its data.\<close>
type_synonym zip_entry = "path \<times> bytes"

datatype error =
    IndexError
  | FileNotFoundError path
  | ClientError string

text \<open>\<open>quoted s\<close> is \<open>"'" + s + "'"\<close>.\<close>
definition quoted :: "string \<Rightarrow> string" where
  "quoted s = CHR 0x27 # s @ [CHR 0x27]"

text \<open>\<open>str.rfind\<close> for a single character: the highest index, or \<open>-1\<close>.\<close>
fun rfind :: "string \<Rightarrow> char \<Rightarrow> int" where
  "rfind [] c = - 1"
| "rfind (x # xs) c =
     (let r = rfind xs c in if 0 \<le> r then r + 1 else if x = c then 0 else - 1)"

text \<open>\<open>posixpath.basename\<close>: \<open>p[p.rfind('/') + 1:]\<close>.\<close>
definition basename :: "path \<Rightarrow> string" where
  "basename p = drop (nat (rfind p CHR ''/'' + 1)) p"

text \<open>
  \<open>posixpath.splitext\<close> (\<open>genericpath._splitext\<close>): split at the last dot that lies
  after the last separator, unless only dots come before it in the file name.
\<close>
definition splitext :: "path \<Rightarrow> string \<times> string" where
  "splitext p =
     (let sepIndex = rfind p CHR ''/''; dotIndex = rfind p CHR ''.''
      in if sepIndex < dotIndex \<and>
            (\<exists>c \<in> set (take (nat (dotIndex - (sepIndex + 1))) (drop (nat (sepIndex + 1)) p)).
               c \<noteq> CHR ''.'')
         then (take (nat dotIndex) p, drop (nat dotIndex) p)
         else (p, []))"

definition endswith :: "string \<Rightarrow> string \<Rightarrow> bool" where
  "endswith s suf \<longleftrightarrow> length suf \<le> length s \<and> drop (length s - length suf) s = suf"

text \<open>\<open>glob._ishidden\<close>: the name starts with a dot.\<close>
definition ishidden :: "string \<Rightarrow> bool" where
  "ishidden n = (case n of [] \<Rightarrow> False | c # _ \<Rightarrow> c = CHR ''.'')"

text \<open>\<open>str.split(sep)\<close> for a single character separator.\<close>
fun split_on :: "char \<Rightarrow> string \<Rightarrow> string list" where
  "split_on c [] = [[]]"
| "split_on c (x # xs) =
     (if x = c then [] # split_on c xs
      else (case split_on c xs of [] \<Rightarrow> [[x]] | y # ys \<Rightarrow> (x # y) # ys))"

text \<open>\<open>sep.join(comps)\<close>.\<close>
fun join :: "string \<Rightarrow> string list \<Rightarrow> string" where
  "join sep [] = []"
| "join sep [x] = x"
| "join sep (x # y # ys) = x @ sep @ join sep (y # ys)"

text \<open>
  The loop of \<open>posixpath.normpath\<close> over the components; \<open>rooted\<close> says that the path
  starts with a separator, \<open>new_comps\<close> is the list built so far.
\<close>
fun norm_comps :: "bool \<Rightarrow> string list \<Rightarrow> string list \<Rightarrow> string list" where
  "norm_comps rooted [] new_comps = new_comps"
| "norm_comps rooted (component # comps) new_comps =
     (if component = [] \<or> component = ''.'' then norm_comps rooted comps new_comps
      else if component \<noteq> ''..'' \<or> (\<not> rooted \<and> new_comps = [])
              \<or> (new_comps \<noteq> [] \<and> last new_comps = ''..'')
        then norm_comps rooted comps (new_comps @ [component])
      else if new_comps \<noteq> [] then norm_comps rooted comps (butlast new_comps)
      else norm_comps rooted comps new_comps)"

definition normpath :: "path \<Rightarrow> path" where
  "normpath p =
     (if p = [] then ''.''
      else
        let initial_slashes =
              (if take 1 p = ''/''
               then (if take 2 p = ''//'' \<and> take 3 p \<noteq> ''///'' then 2 else 1)
               else (0::nat));
            comps = norm_comps (initial_slashes \<noteq> 0) (split_on CHR ''/'' p) [];
            q = replicate initial_slashes CHR ''/'' @ join ''/'' comps
        in if q = [] then ''.'' else q)"

text \<open>
  \<open>ZipInfo.from_file\<close> with \<open>arcname=None\<close>: the member name is the normalised path
  with leading separators removed (\<open>while arcname[0] in (os.sep, os.altsep)\<close>).
\<close>
fun strip_leading_sep :: "string \<Rightarrow> error + string" where
  "strip_leading_sep [] = Inl IndexError"
| "strip_leading_sep (c # cs) =
     (if c = CHR ''/'' then strip_leading_sep cs else Inr (c # cs))"

definition arcname :: "path \<Rightarrow> error + path" where
  "arcname file = strip_leading_sep (normpath file)"

subsection \<open>The clock and \<open>time.strftime\<close>\<close>

record struct_time =
  tm_year :: nat
  tm_mon :: nat
  tm_mday :: nat
  tm_hour :: nat
  tm_min :: nat
  tm_sec :: nat

fun decimal :: "nat \<Rightarrow> string" where
  "decimal n =
     (if n < 10 then [''0123456789'' ! n]
      else decimal (n div 10) @ [''0123456789'' ! (n mod 10)])"

definition pad2 :: "nat \<Rightarrow> string" where
  "pad2 n = (if n < 10 then CHR ''0'' # decimal n else decimal n)"

text \<open>\<open>time.strftime('%Y%m%d-%H%M%S', t)\<close>.\<close>
definition strftime_Ymd_HMS :: "struct_time \<Rightarrow> string" where
  "strftime_Ymd_HMS t =
     decimal (tm_year t) @ pad2 (tm_mon t) @ pad2 (tm_mday t) @ ''-'' @
     pad2 (tm_hour t) @ pad2 (tm_min t) @ pad2 (tm_sec t)"

subsection \<open>The surroundings of a run\<close>

text \<open>An element of the \<open>'Environments'\<close> list; only \<open>'Status'\<close> is read.\<close>
record environment =
  Status :: string

text \<open>
  What the surroundings answer. A remote call answers \<open>Inr response\<close> or raises
  (\<open>Inl\<close>); a response that is only printed is kept as its printed text.
  \<open>describe_environments w i\<close> is the answer to the \<open>i\<close>-th poll (from 0).
  \<open>listdir_libs\<close> holds the entry names of \<open>./build/libs\<close> after the build, in the
  order the operating system lists them (empty when the directory is missing), and
  \<open>read_file\<close> the data of a regular file, \<open>None\<close> when it cannot be read;
  \<open>isdir p\<close> says that \<open>p\<close> exists and is a directory.
  \<open>localtime\<close> and \<open>gmtime\<close> are the two readings of the clock at packaging time.
\<close>
record world =
  arguments_application_name :: string
  arguments_environment_name :: string
  region_name :: string
  get_caller_identity_Account :: "error + string"
  describe_applications :: "error + string list"
  create_application :: "error + string"
  gradlew_build :: "error + string \<times> string \<times> int"
  listdir_libs :: "string list"
  read_file :: "path \<Rightarrow> bytes option"
  isdir :: "path \<Rightarrow> bool"
  localtime :: struct_time
  gmtime :: struct_time
  buckets_all :: "error + string list"
  create_bucket :: "error + string"
  put_object :: "error + string"
  create_application_version :: "error + string"
  describe_environments :: "nat \<Rightarrow> error + environment list"
  create_environment :: "error + string"
  update_environment :: "error + string"

text \<open>The calls a run issues, with their arguments, in program order.\<close>
datatype event =
    Print string
  | PrintJson string
  | Sleep nat
  | Rmtree path
  | Chdir_script_dir
  | Popen "string list"
  | DescribeApplications "string list"
  | CreateApplication string string
  | GetCallerIdentity
  | ListBuckets
  | CreateBucket string string string
  | PutObject string string "zip_entry list"
  | CreateApplicationVersion string string string string bool bool
  | DescribeEnvironments string "string list"
  | CreateEnvironment string string string string string
  | UpdateEnvironment string string string

text \<open>
  What the process itself mutates: the module-level list of line 14 and the archives it
  has written to the working directory.
\<close>
record state =
  elasticbeanstalk_files_list :: "path list"
  written_archives :: "path \<rightharpoonup> zip_entry list"

definition build_path :: path where
  "build_path = ''./build''"

definition application_path :: path where
  "application_path = build_path @ ''/libs''"

definition source_bundle_s3_bucket_prefix :: string where
  "source_bundle_s3_bucket_prefix = ''elasticbeanstalk''"

definition initial_state :: state where
  "initial_state =
     \<lparr>elasticbeanstalk_files_list = [''./Dockerrun.aws.json'', ''./Dockerfile'', ''env.yaml''],
      written_archives = Map.empty\<rparr>"

subsection \<open>The functions of the script\<close>

text \<open>Lines 34 to 38.\<close>
definition print_result :: "string \<Rightarrow> string \<Rightarrow> event list" where
  "print_result output err =
     (if output \<noteq> [] then [Print output] else []) @ (if err \<noteq> [] then [Print err] else [])"

text \<open>Lines 43 and 44.\<close>
definition print_response :: "string \<Rightarrow> event list" where
  "print_response response = [PrintJson response]"

text \<open>
  Lines 75 to 80. \<open>communicate()\<close> gives the two captured streams; the exit status of
  the process is not read.
\<close>
definition build_application :: "world \<Rightarrow> event list \<times> (error + unit)" where
  "build_application w =
     (let t = [Rmtree build_path, Chdir_script_dir, Popen [''./gradlew'', ''build'']]
      in case gradlew_build w of
           Inl e \<Rightarrow> (t, Inl e)
         | Inr (output, err, returncode) \<Rightarrow> (t @ print_result output err, Inr ()))"

text \<open>
  \<open>glob.glob(application_path + '/*.jar')\<close>: the names that are not hidden and match
  \<open>*.jar\<close>, each joined to the directory.
\<close>
definition glob_jar :: "world \<Rightarrow> path list" where
  "glob_jar w =
     map (\<lambda>n. application_path @ ''/'' @ n)
       (filter (\<lambda>n. \<not> ishidden n \<and> endswith n ''.jar'') (listdir_libs w))"

text \<open>
  \<open>zip.write(file)\<close> with no \<open>arcname\<close>: the member it appends, or the exception.
  A directory is stored under \<open>arcname file\<close> followed by a separator, with no data
  and without what it contains; a regular file is read (raising when it is missing) and
  stored under \<open>arcname file\<close>.
\<close>
definition zip_write :: "(path \<Rightarrow> bool) \<Rightarrow> (path \<Rightarrow> bytes option) \<Rightarrow> path \<Rightarrow> error + zip_entry" where
  "zip_write isd rd file =
     (if isd file then
        (case arcname file of
           Inl e \<Rightarrow> Inl e
         | Inr a \<Rightarrow> Inr (a @ ''/'', []))
      else
        (case rd file of
           None \<Rightarrow> Inl (FileNotFoundError file)
         | Some data \<Rightarrow>
             (case arcname file of
                Inl e \<Rightarrow> Inl e
              | Inr a \<Rightarrow> Inr (a, data))))"

text \<open>
  The loop of lines 91 and 92 inside the \<open>with\<close> block. The members written before
  an exception stay in the archive, which \<open>with\<close> closes.
\<close>
fun zip_write_all :: "(path \<Rightarrow> bool) \<Rightarrow> (path \<Rightarrow> bytes option) \<Rightarrow> path list
    \<Rightarrow> zip_entry list \<Rightarrow> zip_entry list \<times> error option" where
  "zip_write_all isd rd [] archive = (archive, None)"
| "zip_write_all isd rd (file # files) archive =
     (case zip_write isd rd file of
        Inl e \<Rightarrow> (archive, Some e)
      | Inr member \<Rightarrow> zip_write_all isd rd files (archive @ [member]))"

text \<open>Lines 85 to 94.\<close>
definition package_application :: "world \<Rightarrow> state \<Rightarrow> state \<times> event list \<times> (error + string)" where
  "package_application w s =
     (case glob_jar w of
        [] \<Rightarrow> (s, [], Inl IndexError)
      | app_file # _ \<Rightarrow>
          (let s1 = s\<lparr>elasticbeanstalk_files_list := elasticbeanstalk_files_list s @ [app_file]\<rparr>;
               app_name = fst (splitext (basename app_file));
               app_ver_pkg_name = app_name @ ''-'' @ strftime_Ymd_HMS (localtime w);
               (archive, raised) =
                 zip_write_all (isdir w) (read_file w) (elasticbeanstalk_files_list s1) [];
               s2 = s1\<lparr>written_archives := (written_archives s1)(app_ver_pkg_name @ ''.zip'' \<mapsto> archive)\<rparr>
           in case raised of
                Some e \<Rightarrow> (s2, [], Inl e)
              | None \<Rightarrow>
                  (s2,
                   [Print (''All application files zipped successfully to '' @
                           quoted (app_ver_pkg_name @ ''.zip'') @ '' package\<newline>'')],
                   Inr app_ver_pkg_name)))"

text \<open>Lines 109 to 114: open the archive, put it, print the response.\<close>
definition put_archive :: "world \<Rightarrow> state \<Rightarrow> string \<Rightarrow> string \<Rightarrow> event list \<times> (error + string)" where
  "put_archive w s application_version_package_name s3_bucket =
     (case written_archives s (application_version_package_name @ ''.zip'') of
        None \<Rightarrow> ([], Inl (FileNotFoundError (application_version_package_name @ ''.zip'')))
      | Some body \<Rightarrow>
          (let t = [PutObject s3_bucket (application_version_package_name @ ''.zip'') body]
           in case put_object w of
                Inl e \<Rightarrow> (t, Inl e)
              | Inr response \<Rightarrow> (t @ [Print response], Inr s3_bucket)))"

text \<open>Lines 99 to 114; the package name is the global of line 143.\<close>
definition upload_application_version :: "world \<Rightarrow> state \<Rightarrow> string \<Rightarrow> event list \<times> (error + string)" where
  "upload_application_version w s application_version_package_name =
     (case get_caller_identity_Account w of
        Inl e \<Rightarrow> ([GetCallerIdentity], Inl e)
      | Inr account \<Rightarrow>
          (let s3_bucket = source_bundle_s3_bucket_prefix @ ''-'' @ region_name w @ ''-'' @ account
           in case buckets_all w of
                Inl e \<Rightarrow> ([GetCallerIdentity, ListBuckets], Inl e)
              | Inr buckets \<Rightarrow>
                  if s3_bucket \<notin> set buckets then
                    (case create_bucket w of
                       Inl e \<Rightarrow>
                         ([GetCallerIdentity, ListBuckets,
                           CreateBucket ''private'' s3_bucket (region_name w)], Inl e)
                     | Inr _ \<Rightarrow>
                         (case put_archive w s application_version_package_name s3_bucket of
                            (t, r) \<Rightarrow>
                              ([GetCallerIdentity, ListBuckets,
                                CreateBucket ''private'' s3_bucket (region_name w)] @ t, r)))
                  else
                    (case put_archive w s application_version_package_name s3_bucket of
                       (t, r) \<Rightarrow> ([GetCallerIdentity, ListBuckets] @ t, r))))"

subsection \<open>The main program\<close>

text \<open>Lines 130 to 137: create the application when the query finds none.\<close>
definition ensure_application :: "world \<Rightarrow> event list \<times> (error + unit)" where
  "ensure_application w =
     (let application_name = arguments_application_name w
      in case describe_applications w of
           Inl e \<Rightarrow> ([DescribeApplications [application_name]], Inl e)
         | Inr applications \<Rightarrow>
             if applications = [] then
               (let t = [DescribeApplications [application_name],
                         Print (''\<newline>Create '' @ quoted application_name @
                                '' Elastic Beanstalk application:\<newline>''),
                         CreateApplication application_name (application_name @ '' Application'')]
                in case create_application w of
                     Inl e \<Rightarrow> (t, Inl e)
                   | Inr response \<Rightarrow> (t @ print_response response, Inr ()))
             else ([DescribeApplications [application_name]], Inr ()))"

text \<open>Lines 148 to 162: register the version, print the response, sleep 10 seconds.\<close>
definition register_version :: "world \<Rightarrow> string \<Rightarrow> string \<Rightarrow> event list \<times> (error + unit)" where
  "register_version w application_version_package_name source_bundle_s3_bucket =
     (let application_name = arguments_application_name w;
          t = [Print (''\<newline>Create '' @ quoted application_version_package_name @
                      '' application version for '' @ quoted application_name @
                      '' Elastic Beanstalk application:\<newline>''),
               CreateApplicationVersion application_name application_version_package_name
                 source_bundle_s3_bucket (application_version_package_name @ ''.zip'') False True]
      in case create_application_version w of
           Inl e \<Rightarrow> (t, Inl e)
         | Inr response \<Rightarrow> (t @ print_response response @ [Sleep 10], Inr ()))"

text \<open>
  Lines 130 to 162, in sequence: ensure the application, build, package, upload,
  register. The value is the package name of line 143.
\<close>
definition pipeline :: "world \<Rightarrow> state \<Rightarrow> state \<times> event list \<times> (error + string)" where
  "pipeline w s =
     (case ensure_application w of
        (t1, Inl e) \<Rightarrow> (s, t1, Inl e)
      | (t1, Inr _) \<Rightarrow>
     (case build_application w of
        (t2, Inl e) \<Rightarrow> (s, t1 @ [Print ''\<newline>Build the application:\<newline>''] @ t2, Inl e)
      | (t2, Inr _) \<Rightarrow>
     (let t12 = t1 @ [Print ''\<newline>Build the application:\<newline>''] @ t2 @
                [Print ''\<newline>Create the ZIP package for the new application version:\<newline>'']
      in case package_application w s of
        (s1, t3, Inl e) \<Rightarrow> (s1, t12 @ t3, Inl e)
      | (s1, t3, Inr application_version_package_name) \<Rightarrow>
     (let t123 = t12 @ t3 @
                 [Print ''\<newline>Upload the application version package to a source bundle S3 bucket:\<newline>'']
      in case upload_application_version w s1 application_version_package_name of
        (t4, Inl e) \<Rightarrow> (s1, t123 @ t4, Inl e)
      | (t4, Inr source_bundle_s3_bucket) \<Rightarrow>
     (case register_version w application_version_package_name source_bundle_s3_bucket of
        (t5, Inl e) \<Rightarrow> (s1, t123 @ t4 @ t5, Inl e)
      | (t5, Inr _) \<Rightarrow> (s1, t123 @ t4 @ t5, Inr application_version_package_name))))))"

text \<open>Line 164.\<close>
definition environment_name :: "world \<Rightarrow> string" where
  "environment_name w = arguments_application_name w @ ''-'' @ arguments_environment_name w"

text \<open>The condition of the \<open>while\<close> of line 169; \<open>hd\<close> is read only on a non-empty list.\<close>
definition operation_in_progress :: "environment list \<Rightarrow> bool" where
  "operation_in_progress environment_configuration \<longleftrightarrow>
     environment_configuration \<noteq> [] \<and>
     Status (hd environment_configuration) \<noteq> ''Ready'' \<and>
     Status (hd environment_configuration) \<noteq> ''Terminated''"

definition waiting_notice :: "world \<Rightarrow> string" where
  "waiting_notice w =
     ''\<newline>There is an operation in progress in '' @ quoted (environment_name w) @
     '' environment. Waiting for it to be completed...\<newline>''"

text \<open>
  The loop of lines 169 to 174. \<open>i\<close> counts the polls answered so far, \<open>t\<close> is the trace
  so far. The loop has no bound: a run that never leaves it has the value \<open>None\<close>.
\<close>
partial_function (option) wait_loop ::
  "world \<Rightarrow> nat \<Rightarrow> environment list \<Rightarrow> bool \<Rightarrow> event list
    \<Rightarrow> (event list \<times> (error + environment list)) option" where
  "wait_loop w i environment_configuration wait_message_printed t =
     (if operation_in_progress environment_configuration then
        (let t1 = (if \<not> wait_message_printed then t @ [Print (waiting_notice w)] else t);
             t2 = t1 @ [Sleep 30,
                        DescribeEnvironments (arguments_application_name w) [environment_name w]]
         in case describe_environments w (Suc i) of
              Inl e \<Rightarrow> Some (t2, Inl e)
            | Inr environment_configuration' \<Rightarrow>
                wait_loop w (Suc i) environment_configuration' True t2)
      else Some (t, Inr environment_configuration))"

text \<open>Lines 167 to 174: the first poll, then the loop.\<close>
definition await_environment :: "world \<Rightarrow> (event list \<times> (error + environment list)) option" where
  "await_environment w =
     (let t = [DescribeEnvironments (arguments_application_name w) [environment_name w]]
      in case describe_environments w 0 of
           Inl e \<Rightarrow> Some (t, Inl e)
         | Inr environment_configuration \<Rightarrow> wait_loop w 0 environment_configuration False t)"

text \<open>Lines 176 to 192: create the environment or update it, print the response.\<close>
definition create_or_update ::
  "world \<Rightarrow> string \<Rightarrow> environment list \<Rightarrow> event list \<times> (error + unit)" where
  "create_or_update w application_version_package_name environment_configuration =
     (let application_name = arguments_application_name w
      in if environment_configuration = [] \<or>
            Status (hd environment_configuration) = ''Terminated'' then
           (let t = [Print (''\<newline>Create '' @ quoted (environment_name w) @
                            '' deployment environment for '' @ quoted application_name @
                            '' Elastic Beanstalk application:\<newline>''),
                     CreateEnvironment application_name (environment_name w)
                       (environment_name w @ '' Environment'') (environment_name w)
                       application_version_package_name]
            in case create_environment w of
                 Inl e \<Rightarrow> (t, Inl e)
               | Inr response \<Rightarrow> (t @ print_response response, Inr ()))
         else
           (let t = [Print (''\<newline>Update '' @ quoted (environment_name w) @
                            '' deployment environment for '' @ quoted application_name @
                            '' Elastic Beanstalk application:\<newline>''),
                     UpdateEnvironment application_name (environment_name w)
                       application_version_package_name]
            in case update_environment w of
                 Inl e \<Rightarrow> (t, Inl e)
               | Inr response \<Rightarrow> (t @ print_response response, Inr ())))"

text \<open>
  Lines 130 to 192. The value is the final state, the trace and the outcome; \<open>None\<close>
  when the wait loop never ends.
\<close>
definition main :: "world \<Rightarrow> state \<Rightarrow> (state \<times> event list \<times> (error + unit)) option" where
  "main w s =
     (case pipeline w s of
        (s1, t, Inl e) \<Rightarrow> Some (s1, t, Inl e)
      | (s1, t, Inr application_version_package_name) \<Rightarrow>
          (case await_environment w of
             None \<Rightarrow> None
           | Some (t', Inl e) \<Rightarrow> Some (s1, t @ t', Inl e)
           | Some (t', Inr environment_configuration) \<Rightarrow>
               (case create_or_update w application_version_package_name environment_configuration of
                  (t'', r) \<Rightarrow> Some (s1, t @ t' @ t'', r))))"

text \<open>A run of the script: \<open>main\<close> from the state the module is loaded with.\<close>
definition run :: "world \<Rightarrow> (state \<times> event list \<times> (error + unit)) option" where
  "run w = main w initial_state"

subsection \<open>Concrete surroundings\<close>

text \<open>
  A first deployment: no application, no bucket, no environment, one jar in the build
  output, and a clock one hour ahead of UTC.
\<close>
definition fresh_world :: world where
  "fresh_world =
     \<lparr>arguments_application_name = ''shop'',
      arguments_environment_name = ''prod'',
      region_name = ''eu-west-1'',
      get_caller_identity_Account = Inr ''123456789012'',
      describe_applications = Inr [],
      create_application = Inr ''{}'',
      gradlew_build = Inr (''BUILD SUCCESSFUL'', [], 0),
      listdir_libs = [''shop-1.0.jar''],
      read_file = [''./Dockerrun.aws.json'' \<mapsto> ''{}'', ''./Dockerfile'' \<mapsto> ''FROM java'',
                   ''env.yaml'' \<mapsto> ''a: b'', ''./build/libs/shop-1.0.jar'' \<mapsto> ''PK''],
      isdir = (\<lambda>p. False),
      localtime = \<lparr>tm_year = 2024, tm_mon = 1, tm_mday = 7, tm_hour = 13, tm_min = 0, tm_sec = 59\<rparr>,
      gmtime = \<lparr>tm_year = 2024, tm_mon = 1, tm_mday = 7, tm_hour = 12, tm_min = 0, tm_sec = 59\<rparr>,
      buckets_all = Inr [],
      create_bucket = Inr ''{}'',
      put_object = Inr ''s3.Object'',
      create_application_version = Inr ''{}'',
      describe_environments = (\<lambda>i. Inr []),
      create_environment = Inr ''{}'',
      update_environment = Inr ''{}''\<rparr>"

text \<open>The build left no jar behind.\<close>
definition no_jar_world :: world where
  "no_jar_world = fresh_world\<lparr>listdir_libs := [''tmp'', ''.hidden.jar'', ''notes.txt'']\<rparr>"

text \<open>The build process exits with status 1 after the jar was assembled.\<close>
definition failed_build_world :: world where
  "failed_build_world = fresh_world\<lparr>gradlew_build := Inr ([], ''FAILURE: Build failed'', 1)\<rparr>"

text \<open>
  A later deployment: application and bucket exist, the environment is updating at the
  first two polls and ready from the third on.
\<close>
definition updating_world :: world where
  "updating_world =
     fresh_world
       \<lparr>describe_applications := Inr [''shop''],
        buckets_all := Inr [''elasticbeanstalk-eu-west-1-123456789012''],
        describe_environments :=
          (\<lambda>i. if i < 2 then Inr [\<lparr>Status = ''Updating''\<rparr>] else Inr [\<lparr>Status = ''Ready''\<rparr>])\<rparr>"

text \<open>The environment has been terminated.\<close>
definition terminated_world :: world where
  "terminated_world =
     fresh_world\<lparr>describe_environments := (\<lambda>i. Inr [\<lparr>Status = ''Terminated''\<rparr>])\<rparr>"

text \<open>A second packaging in the same process, one second later, of another jar.\<close>
definition second_world :: world where
  "second_world =
     fresh_world
       \<lparr>listdir_libs := [''shop-1.1.jar'', ''shop-1.0.jar''],
        read_file := (read_file fresh_world)(''./build/libs/shop-1.1.jar'' \<mapsto> ''PK2''),
        localtime := \<lparr>tm_year = 2024, tm_mon = 1, tm_mday = 7, tm_hour = 13, tm_min = 1, tm_sec = 0\<rparr>\<rparr>"

text \<open>
  The only match of \<open>*.jar\<close> in the build output is a directory, with a class file in
  it.
\<close>
definition directory_jar_world :: world where
  "directory_jar_world =
     fresh_world
       \<lparr>listdir_libs := [''classes.jar''],
        read_file := [''./Dockerrun.aws.json'' \<mapsto> ''{}'', ''./Dockerfile'' \<mapsto> ''FROM java'',
                      ''env.yaml'' \<mapsto> ''a: b'',
                      ''./build/libs/classes.jar/A.class'' \<mapsto> ''CAFE''],
        isdir := (\<lambda>p. p = ''./build/libs/classes.jar'')\<rparr>"

text \<open>
  Calling \<open>package_application\<close> once per element, in the same process: the state of
  one call is the state the next one starts in.
\<close>
fun package_calls :: "world list \<Rightarrow> state \<Rightarrow> state" where
  "package_calls [] s = s"
| "package_calls (w # ws) s = package_calls ws (fst (package_application w s))"

text \<open>What extraction leaves at a path: a regular file with its data, or a directory.\<close>
datatype node = File bytes | Directory

text \<open>
  The path \<open>ZipFile.extractall\<close> writes a member to, below the target directory: the
  member name without its empty, \<open>.\<close> and \<open>..\<close> components.
\<close>
definition extract_name :: "path \<Rightarrow> path" where
  "extract_name a =
     join ''/'' (filter (\<lambda>x. x \<noteq> [] \<and> x \<noteq> ''.'' \<and> x \<noteq> ''..'') (split_on CHR ''/'' a))"

text \<open>\<open>ZipInfo.is_dir\<close>: the member name ends with a separator.\<close>
definition is_dir_member :: "path \<Rightarrow> bool" where
  "is_dir_member a \<longleftrightarrow> a \<noteq> [] \<and> last a = CHR ''/''"

text \<open>
  \<open>ZipFile.extractall\<close> into an empty directory: a directory member makes a directory,
  any other member a file with its data, a later member replacing an earlier one at the same
  path. The directories above a member are not recorded.
\<close>
fun extractall :: "zip_entry list \<Rightarrow> (path \<rightharpoonup> node) \<Rightarrow> (path \<rightharpoonup> node)" where
  "extractall [] fs = fs"
| "extractall ((a, d) # es) fs =
     extractall es (fs(extract_name a \<mapsto> (if is_dir_member a then Directory else File d)))"

subsection \<open>Vocabulary for the statements\<close>

text \<open>
  The trace of the loop of lines 169 to 174 after at most \<open>k\<close> rounds: the same loop
  with a bound on its rounds, so that a run that never leaves the loop has traces too.
\<close>
fun wait_rounds ::
  "world \<Rightarrow> nat \<Rightarrow> environment list \<Rightarrow> bool \<Rightarrow> event list \<Rightarrow> nat \<Rightarrow> event list" where
  "wait_rounds w i environment_configuration wait_message_printed t 0 = t"
| "wait_rounds w i environment_configuration wait_message_printed t (Suc k) =
     (if operation_in_progress environment_configuration then
        (let t1 = (if \<not> wait_message_printed then t @ [Print (waiting_notice w)] else t);
             t2 = t1 @ [Sleep 30,
                        DescribeEnvironments (arguments_application_name w) [environment_name w]]
         in case describe_environments w (Suc i) of
              Inl e \<Rightarrow> t2
            | Inr environment_configuration' \<Rightarrow>
                wait_rounds w (Suc i) environment_configuration' True t2 k)
      else t)"

text \<open>The answer to poll \<open>i\<close> is a description with an operation in progress.\<close>
definition in_progress_at :: "world \<Rightarrow> nat \<Rightarrow> bool" where
  "in_progress_at w i =
     (case describe_environments w i of Inl _ \<Rightarrow> False | Inr cfg \<Rightarrow> operation_in_progress cfg)"

text \<open>
  The events of \<open>n\<close> rounds of waiting, as the specification describes them: the notice
  once, unless it was printed before, then \<open>n\<close> times a sleep of 30 seconds and a poll.
\<close>
definition polling_trace :: "world \<Rightarrow> bool \<Rightarrow> nat \<Rightarrow> event list" where
  "polling_trace w printed n =
     (if n = 0 \<or> printed then [] else [Print (waiting_notice w)]) @
     concat (replicate n
       [Sleep 30, DescribeEnvironments (arguments_application_name w) [environment_name w]])"

definition is_create_application :: "event \<Rightarrow> bool" where
  "is_create_application e = (case e of CreateApplication _ _ \<Rightarrow> True | _ \<Rightarrow> False)"

definition is_create_application_version :: "event \<Rightarrow> bool" where
  "is_create_application_version e =
     (case e of CreateApplicationVersion _ _ _ _ _ _ \<Rightarrow> True | _ \<Rightarrow> False)"

definition is_environment_request :: "event \<Rightarrow> bool" where
  "is_environment_request e =
     (case e of CreateEnvironment _ _ _ _ _ \<Rightarrow> True | UpdateEnvironment _ _ _ \<Rightarrow> True | _ \<Rightarrow> False)"

definition is_describe_environments :: "event \<Rightarrow> bool" where
  "is_describe_environments e = (case e of DescribeEnvironments _ _ \<Rightarrow> True | _ \<Rightarrow> False)"

section \<open>Properties\<close>

subsection \<open>Paths and artifact names\<close>

lemma rfind_notin: "c \<notin> set xs \<Longrightarrow> rfind xs c = - 1"
  by (induction xs) (auto simp: Let_def)

lemma rfind_in: "c \<in> set xs \<Longrightarrow> 0 \<le> rfind xs c"
  by (induction xs) (auto simp: Let_def rfind_notin)

lemma rfind_append_notin: "c \<notin> set ys \<Longrightarrow> rfind (xs @ ys) c = rfind xs c"
  by (induction xs) (auto simp: Let_def rfind_notin)

lemma rfind_append_in: "c \<in> set ys \<Longrightarrow> rfind (xs @ ys) c = int (length xs) + rfind ys c"
  by (induction xs) (auto simp: Let_def dest: rfind_in)

lemma basename_libs:
  assumes "CHR ''/'' \<notin> set n"
  shows "basename (application_path @ ''/'' @ n) = n"
proof -
  define pre where "pre = ''./build/libs/''"
  have r: "rfind pre CHR ''/'' = 12"
    by (simp add: pre_def Let_def)
  have len: "length pre = 13"
    by (simp add: pre_def)
  have eq: "application_path @ ''/'' @ n = pre @ n"
    by (simp add: pre_def application_path_def build_path_def)
  have "rfind (pre @ n) CHR ''/'' = rfind pre CHR ''/''"
    using assms by (rule rfind_append_notin)
  then show ?thesis
    unfolding basename_def eq by (simp add: r len)
qed

lemma splitext_jar:
  assumes "stem \<noteq> []" "hd stem \<noteq> CHR ''.''" "CHR ''/'' \<notin> set stem"
  shows "splitext (stem @ ''.jar'') = (stem, ''.jar'')"
proof -
  have sep: "rfind (stem @ ''.jar'') CHR ''/'' = - 1"
    using assms by (simp add: rfind_notin)
  have dot: "rfind (stem @ ''.jar'') CHR ''.'' = int (length stem)"
    by (simp add: rfind_append_in)
  have "hd stem \<in> set stem" using assms by simp
  with assms have ex: "\<exists>c \<in> set stem. c \<noteq> CHR ''.''" by blast
  show ?thesis
    unfolding splitext_def sep dot using ex by (simp add: Let_def)
qed

lemma endswith_jar: "endswith n ''.jar'' \<Longrightarrow> \<exists>stem. n = stem @ ''.jar''"
  unfolding endswith_def by (metis append_take_drop_id)

lemma matched_name:
  assumes "\<not> ishidden n" "endswith n ''.jar''"
  shows "\<exists>stem. n = stem @ ''.jar'' \<and> stem \<noteq> [] \<and> hd stem \<noteq> CHR ''.''"
proof -
  from assms(2) obtain stem where n: "n = stem @ ''.jar''"
    using endswith_jar by blast
  with assms(1) show ?thesis
    by (cases stem) (auto simp: ishidden_def)
qed

lemma glob_jar_Cons:
  assumes "glob_jar w = app_file # others"
  shows "\<exists>stem. app_file = application_path @ ''/'' @ stem @ ''.jar'' \<and> stem \<noteq> [] \<and>
           hd stem \<noteq> CHR ''.'' \<and> stem @ ''.jar'' \<in> set (listdir_libs w)"
proof -
  from assms obtain n ns where
    f: "filter (\<lambda>n. \<not> ishidden n \<and> endswith n ''.jar'') (listdir_libs w) = n # ns"
    and a: "app_file = application_path @ ''/'' @ n"
    by (auto simp: glob_jar_def)
  have "n \<in> set (filter (\<lambda>n. \<not> ishidden n \<and> endswith n ''.jar'') (listdir_libs w))"
    by (simp add: f)
  then have "\<not> ishidden n" "endswith n ''.jar''" "n \<in> set (listdir_libs w)" by auto
  with matched_name a show ?thesis by blast
qed

lemma stem_of_app_file:
  assumes "stem \<noteq> []" "hd stem \<noteq> CHR ''.''" "CHR ''/'' \<notin> set stem"
  shows "fst (splitext (basename (application_path @ ''/'' @ stem @ ''.jar''))) = stem"
proof -
  have "CHR ''/'' \<notin> set (stem @ ''.jar'')" using assms by simp
  then have "basename (application_path @ ''/'' @ stem @ ''.jar'') = stem @ ''.jar''"
    by (rule basename_libs)
  then show ?thesis using assms by (simp add: splitext_jar)
qed

lemma package_application_name:
  assumes "package_application w s = (s', t, Inr name)"
  shows "\<exists>app_file others. glob_jar w = app_file # others \<and>
           name = fst (splitext (basename app_file)) @ ''-'' @ strftime_Ymd_HMS (localtime w)"
  using assms
  by (auto simp: package_application_def Let_def split: list.splits prod.splits option.splits)

subsection \<open>Archive members\<close>

lemma split_on_nosep: "c \<notin> set n \<Longrightarrow> split_on c n = [n]"
  by (induction n) auto

lemma arcname_libs:
  assumes "CHR ''/'' \<notin> set n" "n \<noteq> []" "n \<noteq> ''.''" "n \<noteq> ''..''"
  shows "arcname (application_path @ ''/'' @ n) = Inr (''build/libs/'' @ n)"
proof -
  have eq: "application_path @ ''/'' @ n = ''./build/libs/'' @ n"
    by (simp add: application_path_def build_path_def)
  have sp: "split_on CHR ''/'' (''./build/libs/'' @ n) = [''.'', ''build'', ''libs'', n]"
    using assms(1) by (simp add: split_on_nosep)
  have nc: "norm_comps False [''.'', ''build'', ''libs'', n] [] = [''build'', ''libs'', n]"
    using assms by simp
  have np: "normpath (''./build/libs/'' @ n) = ''build/libs/'' @ n"
    unfolding normpath_def sp by (simp add: nc del: norm_comps.simps)
  show ?thesis
    unfolding arcname_def eq np by simp
qed

lemma arcname_jar:
  assumes "CHR ''/'' \<notin> set stem" "stem \<noteq> []" "hd stem \<noteq> CHR ''.''"
  shows "arcname (application_path @ ''/'' @ stem @ ''.jar'') = Inr (''build/libs/'' @ stem @ ''.jar'')"
proof -
  have "stem @ ''.jar'' \<noteq> ''.''" "stem @ ''.jar'' \<noteq> ''..''"
    using assms by (cases stem; simp)+
  moreover have "CHR ''/'' \<notin> set (stem @ ''.jar'')" using assms by simp
  ultimately show ?thesis
    using arcname_libs [of "stem @ ''.jar''"] by simp
qed

lemma arcname_descriptors:
  "arcname ''./Dockerrun.aws.json'' = Inr ''Dockerrun.aws.json''"
  "arcname ''./Dockerfile'' = Inr ''Dockerfile''"
  "arcname ''env.yaml'' = Inr ''env.yaml''"
  by (simp_all add: arcname_def normpath_def)

lemma zip_write_Inr:
  "zip_write isd rd file = Inr (a, d) \<longleftrightarrow>
     (if isd file then (\<exists>a'. arcname file = Inr a' \<and> a = a' @ ''/'') \<and> d = []
      else arcname file = Inr a \<and> rd file = Some d)"
  by (auto simp: zip_write_def split: sum.splits option.splits)

lemma zip_write_all_ok:
  "zip_write_all isd rd files archive = (archive', None) \<Longrightarrow>
   \<exists>new. archive' = archive @ new \<and>
     list_all2 (\<lambda>file (a, d).
        if isd file then (\<exists>a'. arcname file = Inr a' \<and> a = a' @ ''/'') \<and> d = []
        else arcname file = Inr a \<and> rd file = Some d) files new"
proof (induction files arbitrary: archive)
  case Nil
  then show ?case by simp
next
  case (Cons f fs)
  let ?P = "\<lambda>file (a, d).
        if isd file then (\<exists>a'. arcname file = Inr a' \<and> a = a' @ ''/'') \<and> d = []
        else arcname file = Inr a \<and> rd file = Some d"
  from Cons.prems obtain m where m: "zip_write isd rd f = Inr m"
    and rest: "zip_write_all isd rd fs (archive @ [m]) = (archive', None)"
    by (auto split: sum.splits)
  obtain a d where ad: "m = (a, d)" by (cases m)
  from m ad have p: "?P f (a, d)"
    by (simp only: zip_write_Inr prod.case)
  from Cons.IH [OF rest] obtain new where
    n: "archive' = (archive @ [m]) @ new" "list_all2 ?P fs new"
    by blast
  from n p ad have "archive' = archive @ (m # new) \<and> list_all2 ?P (f # fs) (m # new)"
    by simp
  then show ?case by blast
qed

lemma package_application_files:
  "elasticbeanstalk_files_list (fst (package_application w s)) =
     elasticbeanstalk_files_list s @ take 1 (glob_jar w)"
  by (auto simp: package_application_def Let_def split: list.splits prod.splits option.splits)

lemma package_application_archive:
  assumes "package_application w s = (s', t, Inr name)"
  shows "\<exists>archive. written_archives s' (name @ ''.zip'') = Some archive \<and>
           list_all2 (\<lambda>file (a, d).
              if isdir w file then (\<exists>a'. arcname file = Inr a' \<and> a = a' @ ''/'') \<and> d = []
              else arcname file = Inr a \<and> read_file w file = Some d)
             (elasticbeanstalk_files_list s @ take 1 (glob_jar w)) archive"
proof -
  from assms obtain app_file others archive where
    g: "glob_jar w = app_file # others" and
    z: "zip_write_all (isdir w) (read_file w) (elasticbeanstalk_files_list s @ [app_file]) [] =
          (archive, None)" and
    s': "written_archives s' (name @ ''.zip'') = Some archive"
    by (auto simp: package_application_def Let_def split: list.splits prod.splits option.splits)
  from zip_write_all_ok [OF z] g s' show ?thesis by auto
qed

lemma package_calls_files:
  "elasticbeanstalk_files_list (package_calls ws s) =
     elasticbeanstalk_files_list s @ concat (map (\<lambda>w. take 1 (glob_jar w)) ws)"
  by (induction ws arbitrary: s) (simp_all add: package_application_files)

lemma package_calls_snoc:
  "package_calls (ws @ [w]) s = fst (package_application w (package_calls ws s))"
  by (induction ws arbitrary: s) simp_all

subsection \<open>The concrete surroundings, evaluated\<close>

lemma glob_fresh: "glob_jar fresh_world = [''./build/libs/shop-1.0.jar'']"
  by (simp add: glob_jar_def fresh_world_def ishidden_def endswith_def application_path_def build_path_def)

lemma glob_no_jar: "glob_jar no_jar_world = []"
  by (simp add: glob_jar_def no_jar_world_def fresh_world_def ishidden_def endswith_def)

lemma glob_second: "glob_jar second_world = [''./build/libs/shop-1.1.jar'', ''./build/libs/shop-1.0.jar'']"
  by (simp add: glob_jar_def second_world_def fresh_world_def ishidden_def endswith_def application_path_def build_path_def)

lemma stem_fresh: "fst (splitext (basename ''./build/libs/shop-1.0.jar'')) = ''shop-1.0''"
  by (simp add: splitext_def basename_def Let_def)

lemma stamp_fresh: "strftime_Ymd_HMS (localtime fresh_world) = ''20240107-130059''"
  by (simp add: strftime_Ymd_HMS_def fresh_world_def pad2_def)

lemma stamp_fresh_utc: "strftime_Ymd_HMS (gmtime fresh_world) = ''20240107-120059''"
  by (simp add: strftime_Ymd_HMS_def fresh_world_def pad2_def)

lemma zip_fresh:
  "zip_write_all (isdir fresh_world) (read_file fresh_world)
     [''./Dockerrun.aws.json'', ''./Dockerfile'', ''env.yaml'', ''./build/libs/shop-1.0.jar''] [] =
   ([(''Dockerrun.aws.json'', ''{}''), (''Dockerfile'', ''FROM java''), (''env.yaml'', ''a: b''),
     (''build/libs/shop-1.0.jar'', ''PK'')], None)"
  by (simp add: fresh_world_def zip_write_def arcname_def normpath_def)

lemma package_fresh:
  "package_application fresh_world initial_state =
     (\<lparr>elasticbeanstalk_files_list =
         [''./Dockerrun.aws.json'', ''./Dockerfile'', ''env.yaml'', ''./build/libs/shop-1.0.jar''],
       written_archives =
         [''shop-1.0-20240107-130059.zip'' \<mapsto>
            [(''Dockerrun.aws.json'', ''{}''), (''Dockerfile'', ''FROM java''), (''env.yaml'', ''a: b''),
             (''build/libs/shop-1.0.jar'', ''PK'')]]\<rparr>,
      [Print (''All application files zipped successfully to '' @
              quoted ''shop-1.0-20240107-130059.zip'' @ '' package\<newline>'')],
      Inr ''shop-1.0-20240107-130059'')"
  unfolding package_application_def glob_fresh
  by (simp add: stem_fresh stamp_fresh initial_state_def zip_fresh quoted_def del: zip_write_all.simps)

subsection \<open>The timestamp\<close>

lemma digit_mem: "n < 10 \<Longrightarrow> ''0123456789'' ! n \<in> set ''0123456789''"
  by (rule nth_mem) simp

lemma decimal_digits: "set (decimal n) \<subseteq> set ''0123456789''"
proof (induction n rule: decimal.induct)
  case (1 n)
  show ?case
  proof (cases "n < 10")
    case True
    then have "decimal n = [''0123456789'' ! n]"
      by (subst decimal.simps) (simp del: decimal.simps)
    with digit_mem [OF True] show ?thesis
      by (simp del: decimal.simps)
  next
    case False
    then have d: "decimal n = decimal (n div 10) @ [''0123456789'' ! (n mod 10)]"
      by (subst decimal.simps) (simp del: decimal.simps)
    have "n mod 10 < 10" by simp
    from digit_mem [OF this] 1 [OF False] show ?thesis
      unfolding d by (simp del: decimal.simps)
  qed
qed

lemma length_decimal_1: "n < 10 \<Longrightarrow> length (decimal n) = 1"
  by (subst decimal.simps) (simp del: decimal.simps)

lemma length_decimal_Suc:
  "10 \<le> n \<Longrightarrow> length (decimal n) = Suc (length (decimal (n div 10)))"
  by (subst decimal.simps) (simp del: decimal.simps)

lemma length_decimal_2: "10 \<le> n \<Longrightarrow> n < 100 \<Longrightarrow> length (decimal n) = 2"
proof -
  assume a: "10 \<le> n" "n < 100"
  then have "n div 10 < 10" by arith
  then have "length (decimal (n div 10)) = 1" by (rule length_decimal_1)
  with length_decimal_Suc [OF a(1)] show ?thesis by (simp del: decimal.simps)
qed

lemma length_decimal_3: "100 \<le> n \<Longrightarrow> n < 1000 \<Longrightarrow> length (decimal n) = 3"
proof -
  assume a: "100 \<le> n" "n < 1000"
  then have b: "10 \<le> n div 10" "n div 10 < 100" "10 \<le> n" by arith+
  from b(1,2) have "length (decimal (n div 10)) = 2" by (rule length_decimal_2)
  with length_decimal_Suc [OF b(3)] show ?thesis by (simp del: decimal.simps)
qed

lemma length_decimal_4: "1000 \<le> n \<Longrightarrow> n < 10000 \<Longrightarrow> length (decimal n) = 4"
proof -
  assume a: "1000 \<le> n" "n < 10000"
  then have b: "100 \<le> n div 10" "n div 10 < 1000" "10 \<le> n" by arith+
  from b(1,2) have "length (decimal (n div 10)) = 3" by (rule length_decimal_3)
  with length_decimal_Suc [OF b(3)] show ?thesis by (simp del: decimal.simps)
qed

lemma length_pad2: "n < 100 \<Longrightarrow> length (pad2 n) = 2"
  by (cases "n < 10") (simp_all add: pad2_def length_decimal_1 length_decimal_2 del: decimal.simps)

lemma pad2_digits: "set (pad2 n) \<subseteq> set ''0123456789''"
  using decimal_digits [of n] by (auto simp: pad2_def simp del: decimal.simps)

lemma strftime_Ymd_HMS_shape:
  assumes "1000 \<le> tm_year t" "tm_year t < 10000" "tm_mon t < 100" "tm_mday t < 100"
    "tm_hour t < 100" "tm_min t < 100" "tm_sec t < 100"
  shows "length (strftime_Ymd_HMS t) = 15 \<and> strftime_Ymd_HMS t ! 8 = CHR ''-'' \<and>
         set (strftime_Ymd_HMS t) \<subseteq> set ''0123456789-''"
proof -
  have l: "length (decimal (tm_year t)) = 4" "length (pad2 (tm_mon t)) = 2"
    "length (pad2 (tm_mday t)) = 2" "length (pad2 (tm_hour t)) = 2"
    "length (pad2 (tm_min t)) = 2" "length (pad2 (tm_sec t)) = 2"
    using assms by (simp_all add: length_decimal_4 length_pad2 del: decimal.simps)
  have len: "length (strftime_Ymd_HMS t) = 15"
    by (simp add: strftime_Ymd_HMS_def l del: decimal.simps)
  have "strftime_Ymd_HMS t =
      (decimal (tm_year t) @ pad2 (tm_mon t) @ pad2 (tm_mday t)) @
      CHR ''-'' # (pad2 (tm_hour t) @ pad2 (tm_min t) @ pad2 (tm_sec t))"
    by (simp add: strftime_Ymd_HMS_def del: decimal.simps)
  moreover have "length (decimal (tm_year t) @ pad2 (tm_mon t) @ pad2 (tm_mday t)) = 8"
    by (simp add: l del: decimal.simps)
  ultimately have dash: "strftime_Ymd_HMS t ! 8 = CHR ''-''"
    by (metis nth_append_length)
  have u: "set (strftime_Ymd_HMS t) =
      set (decimal (tm_year t)) \<union> (set (pad2 (tm_mon t)) \<union> (set (pad2 (tm_mday t)) \<union>
      (set ''-'' \<union> (set (pad2 (tm_hour t)) \<union> (set (pad2 (tm_min t)) \<union>
       set (pad2 (tm_sec t)))))))"
    by (simp only: strftime_Ymd_HMS_def set_append)
  have s1: "set ''0123456789'' \<subseteq> set ''0123456789-''" by simp
  have s2: "set ''-'' \<subseteq> set ''0123456789-''" by simp
  have dig: "set (strftime_Ymd_HMS t) \<subseteq> set ''0123456789-''"
    unfolding u
    using decimal_digits [of "tm_year t"] pad2_digits [of "tm_mon t"] pad2_digits [of "tm_mday t"]
      pad2_digits [of "tm_hour t"] pad2_digits [of "tm_min t"] pad2_digits [of "tm_sec t"] s1 s2
    by blast
  from len dash dig show ?thesis by (intro conjI)
qed

subsection \<open>Packaging\<close>

text \<open>
  Claim C5, as amended. The package name, which is also the version label, is the base
  name of the located artifact without its \<open>.jar\<close> extension, then \<open>-\<close>, then the
  clock's local time (\<open>time.strftime\<close> without a time argument formats
  \<open>localtime()\<close>) as \<open>%Y%m%d-%H%M%S\<close>. The name is a function of the artifact name
  and of that clock reading alone. For a year of four digits the timestamp has 15
  characters, digits around a \<open>-\<close> in ninth place.
\<close>
theorem package_name_local_time:
  assumes "glob_jar w = app_file # others"
    and "\<forall>n \<in> set (listdir_libs w). CHR ''/'' \<notin> set n"
    and "package_application w s = (s', t, Inr name)"
  shows "(\<exists>stem. basename app_file = stem @ ''.jar'' \<and>
            name = stem @ ''-'' @ strftime_Ymd_HMS (localtime w)) \<and>
         (1000 \<le> tm_year (localtime w) \<and> tm_year (localtime w) < 10000 \<and>
          tm_mon (localtime w) < 100 \<and> tm_mday (localtime w) < 100 \<and>
          tm_hour (localtime w) < 100 \<and> tm_min (localtime w) < 100 \<and>
          tm_sec (localtime w) < 100 \<longrightarrow>
            length (strftime_Ymd_HMS (localtime w)) = 15 \<and>
            strftime_Ymd_HMS (localtime w) ! 8 = CHR ''-'' \<and>
            set (strftime_Ymd_HMS (localtime w)) \<subseteq> set ''0123456789-'')"
proof -
  from glob_jar_Cons [OF assms(1)] obtain stem where
    a: "app_file = application_path @ ''/'' @ stem @ ''.jar''" and
    st: "stem \<noteq> []" "hd stem \<noteq> CHR ''.''" and
    mem: "stem @ ''.jar'' \<in> set (listdir_libs w)"
    by blast
  from mem assms(2) have ns: "CHR ''/'' \<notin> set (stem @ ''.jar'')" by blast
  then have b: "basename app_file = stem @ ''.jar''"
    unfolding a by (rule basename_libs)
  from ns have "CHR ''/'' \<notin> set stem" by simp
  with st have sx: "fst (splitext (basename app_file)) = stem"
    unfolding a by (rule stem_of_app_file)
  from package_application_name [OF assms(3)] assms(1) have
    "name = fst (splitext (basename app_file)) @ ''-'' @ strftime_Ymd_HMS (localtime w)"
    by auto
  with b sx have 1: "\<exists>stem. basename app_file = stem @ ''.jar'' \<and>
      name = stem @ ''-'' @ strftime_Ymd_HMS (localtime w)"
    by simp
  have 2: "1000 \<le> tm_year (localtime w) \<and> tm_year (localtime w) < 10000 \<and>
          tm_mon (localtime w) < 100 \<and> tm_mday (localtime w) < 100 \<and>
          tm_hour (localtime w) < 100 \<and> tm_min (localtime w) < 100 \<and>
          tm_sec (localtime w) < 100 \<longrightarrow>
            length (strftime_Ymd_HMS (localtime w)) = 15 \<and>
            strftime_Ymd_HMS (localtime w) ! 8 = CHR ''-'' \<and>
            set (strftime_Ymd_HMS (localtime w)) \<subseteq> set ''0123456789-''"
    using strftime_Ymd_HMS_shape [of "localtime w"] by blast
  from 1 2 show ?thesis ..
qed

theorem package_name_local_time_witness:
  "glob_jar fresh_world = [''./build/libs/shop-1.0.jar''] \<and>
   listdir_libs fresh_world = [''shop-1.0.jar''] \<and>
   snd (snd (package_application fresh_world initial_state)) = Inr ''shop-1.0-20240107-130059'' \<and>
   (\<exists>stem. basename ''./build/libs/shop-1.0.jar'' = stem @ ''.jar'' \<and>
      ''shop-1.0-20240107-130059'' = stem @ ''-'' @ strftime_Ymd_HMS (localtime fresh_world))"
proof -
  have l: "listdir_libs fresh_world = [''shop-1.0.jar'']"
    by (simp add: fresh_world_def)
  then have h: "\<forall>n \<in> set (listdir_libs fresh_world). CHR ''/'' \<notin> set n"
    by simp
  from package_name_local_time [OF glob_fresh h package_fresh, THEN conjunct1] l show ?thesis
    by (simp add: glob_fresh package_fresh)
qed

text \<open>
  Claim C5 as stated, with the UTC reading of the clock, fails where the local time zone
  is not UTC: here the clock is one hour ahead.
\<close>
theorem package_name_utc_counterexample:
  "glob_jar fresh_world = [''./build/libs/shop-1.0.jar''] \<and>
   basename ''./build/libs/shop-1.0.jar'' = ''shop-1.0'' @ ''.jar'' \<and>
   snd (snd (package_application fresh_world initial_state)) = Inr ''shop-1.0-20240107-130059'' \<and>
   ''shop-1.0'' @ ''-'' @ strftime_Ymd_HMS (gmtime fresh_world) = ''shop-1.0-20240107-120059'' \<and>
   snd (snd (package_application fresh_world initial_state)) \<noteq>
     Inr (''shop-1.0'' @ ''-'' @ strftime_Ymd_HMS (gmtime fresh_world))"
  by (simp add: glob_fresh package_fresh stamp_fresh_utc basename_def Let_def)

text \<open>
  Claim C6, as amended. When nothing in \<open>./build/libs\<close> matches \<open>*.jar\<close>, packaging
  raises the \<open>IndexError\<close> of the subscript \<open>[0]\<close>, before the descriptor list is
  changed and before any archive is written. When several files match, the first one of
  the listing is appended to the list and names the package.
\<close>
theorem package_application_first_match:
  "(glob_jar w = [] \<longrightarrow> package_application w s = (s, [], Inl IndexError)) \<and>
   (\<forall>app_file others. glob_jar w = app_file # others \<longrightarrow>
      elasticbeanstalk_files_list (fst (package_application w s)) =
        elasticbeanstalk_files_list s @ [app_file] \<and>
      (\<forall>s' t name. package_application w s = (s', t, Inr name) \<longrightarrow>
         name = fst (splitext (basename app_file)) @ ''-'' @ strftime_Ymd_HMS (localtime w)))"
proof (intro conjI impI allI)
  assume "glob_jar w = []"
  then show "package_application w s = (s, [], Inl IndexError)"
    by (simp add: package_application_def)
next
  fix app_file others
  assume "glob_jar w = app_file # others"
  then show "elasticbeanstalk_files_list (fst (package_application w s)) =
      elasticbeanstalk_files_list s @ [app_file]"
    by (simp add: package_application_files)
next
  fix app_file others s' t name
  assume "glob_jar w = app_file # others" "package_application w s = (s', t, Inr name)"
  then show "name = fst (splitext (basename app_file)) @ ''-'' @ strftime_Ymd_HMS (localtime w)"
    using package_application_name by fastforce
qed

theorem package_application_first_match_witness:
  "glob_jar no_jar_world = [] \<and>
   package_application no_jar_world initial_state = (initial_state, [], Inl IndexError) \<and>
   glob_jar second_world = [''./build/libs/shop-1.1.jar'', ''./build/libs/shop-1.0.jar''] \<and>
   elasticbeanstalk_files_list (fst (package_application second_world initial_state)) =
     elasticbeanstalk_files_list initial_state @ [''./build/libs/shop-1.1.jar'']"
  using package_application_first_match [of no_jar_world initial_state]
    package_application_first_match [of second_world initial_state]
  by (simp add: glob_no_jar glob_second)

lemma list_all2_four:
  "list_all2 P [f1, f2, f3, f4] zs \<Longrightarrow>
   \<exists>z1 z2 z3 z4. zs = [z1, z2, z3, z4] \<and> P f1 z1 \<and> P f2 z2 \<and> P f3 z3 \<and> P f4 z4"
  by (auto simp: list_all2_Cons1)

lemma split_on_snoc: "c \<notin> set n \<Longrightarrow> split_on c (n @ [c]) = [n, []]"
  by (induction n) auto

lemma extract_name_descriptors:
  "extract_name ''Dockerrun.aws.json'' = ''Dockerrun.aws.json''"
  "extract_name ''Dockerfile'' = ''Dockerfile''"
  "extract_name ''env.yaml'' = ''env.yaml''"
  by (simp_all add: extract_name_def)

lemma extract_name_libs:
  assumes "CHR ''/'' \<notin> set n" "n \<noteq> []" "n \<noteq> ''.''" "n \<noteq> ''..''"
  shows "extract_name (''build/libs/'' @ n) = ''build/libs/'' @ n"
    and "extract_name (''build/libs/'' @ n @ ''/'') = ''build/libs/'' @ n"
proof -
  have sp: "split_on CHR ''/'' (''build/libs/'' @ n) = [''build'', ''libs'', n]"
    using assms(1) by (simp add: split_on_nosep)
  have sp': "split_on CHR ''/'' (''build/libs/'' @ n @ ''/'') = [''build'', ''libs'', n, []]"
    using assms(1) by (simp add: split_on_snoc)
  show "extract_name (''build/libs/'' @ n) = ''build/libs/'' @ n"
    unfolding extract_name_def sp using assms by simp
  show "extract_name (''build/libs/'' @ n @ ''/'') = ''build/libs/'' @ n"
    unfolding extract_name_def sp' using assms by simp
qed

lemma extract_name_jar:
  assumes "CHR ''/'' \<notin> set stem" "stem \<noteq> []" "hd stem \<noteq> CHR ''.''"
  shows "extract_name (''build/libs/'' @ stem @ ''.jar'') = ''build/libs/'' @ stem @ ''.jar''"
    and "extract_name (''build/libs/'' @ stem @ ''.jar/'') = ''build/libs/'' @ stem @ ''.jar''"
proof -
  have n: "stem @ ''.jar'' \<noteq> ''.''" "stem @ ''.jar'' \<noteq> ''..''" "stem @ ''.jar'' \<noteq> []"
    using assms by (cases stem; simp)+
  have s: "CHR ''/'' \<notin> set (stem @ ''.jar'')" using assms by simp
  show "extract_name (''build/libs/'' @ stem @ ''.jar'') = ''build/libs/'' @ stem @ ''.jar''"
    using extract_name_libs(1) [OF s n(3) n(1) n(2)] by simp
  show "extract_name (''build/libs/'' @ stem @ ''.jar/'') = ''build/libs/'' @ stem @ ''.jar''"
    using extract_name_libs(2) [OF s n(3) n(1) n(2)] by simp
qed

lemma is_dir_member_simps:
  "\<not> is_dir_member ''Dockerrun.aws.json''"
  "\<not> is_dir_member ''Dockerfile''"
  "\<not> is_dir_member ''env.yaml''"
  "\<not> is_dir_member (''build/libs/'' @ stem @ ''.jar'')"
  "is_dir_member (''build/libs/'' @ stem @ ''.jar/'')"
  by (simp_all add: is_dir_member_def)

text \<open>
  Claim C9, as amended. In a run that locates exactly one artifact, the archive written by
  packaging has exactly four members, in this order, one for each of the three descriptor
  paths and one for the located path. A regular file is stored under its own relative path
  in normalised form (\<open>./Dockerfile\<close> as \<open>Dockerfile\<close>, the artifact under
  \<open>build/libs/\<close>, not flattened to its base name) with the data read from it; a
  directory is stored under that path followed by a separator, with no data and without
  what it contains. When the descriptors are regular files, extracting the archive gives
  exactly four paths: the three descriptors with their data, and the artifact, with its
  data when it is a regular file, as an empty directory when it is a directory.
\<close>
theorem archive_contents:
  assumes "glob_jar w = [app_file]"
    and "\<forall>n \<in> set (listdir_libs w). CHR ''/'' \<notin> set n"
    and "package_application w initial_state = (s', t, Inr name)"
  shows "\<exists>stem archive.
           app_file = ''./build/libs/'' @ stem @ ''.jar'' \<and>
           written_archives s' (name @ ''.zip'') = Some archive \<and>
           list_all2 (\<lambda>file (a, d).
               if isdir w file then (\<exists>a'. arcname file = Inr a' \<and> a = a' @ ''/'') \<and> d = []
               else arcname file = Inr a \<and> read_file w file = Some d)
             [''./Dockerrun.aws.json'', ''./Dockerfile'', ''env.yaml'', app_file] archive \<and>
           (\<not> isdir w ''./Dockerrun.aws.json'' \<and> \<not> isdir w ''./Dockerfile'' \<and>
            \<not> isdir w ''env.yaml'' \<longrightarrow>
            (\<exists>d1 d2 d3.
               read_file w ''./Dockerrun.aws.json'' = Some d1 \<and>
               read_file w ''./Dockerfile'' = Some d2 \<and>
               read_file w ''env.yaml'' = Some d3 \<and>
               dom (extractall archive Map.empty) =
                 {''Dockerrun.aws.json'', ''Dockerfile'', ''env.yaml'',
                  ''build/libs/'' @ stem @ ''.jar''} \<and>
               extractall archive Map.empty ''Dockerrun.aws.json'' = Some (File d1) \<and>
               extractall archive Map.empty ''Dockerfile'' = Some (File d2) \<and>
               extractall archive Map.empty ''env.yaml'' = Some (File d3) \<and>
               (if isdir w app_file then
                  archive = [(''Dockerrun.aws.json'', d1), (''Dockerfile'', d2), (''env.yaml'', d3),
                             (''build/libs/'' @ stem @ ''.jar/'', [])] \<and>
                  extractall archive Map.empty (''build/libs/'' @ stem @ ''.jar'') = Some Directory
                else
                  (\<exists>d4. read_file w app_file = Some d4 \<and>
                     archive = [(''Dockerrun.aws.json'', d1), (''Dockerfile'', d2), (''env.yaml'', d3),
                                (''build/libs/'' @ stem @ ''.jar'', d4)] \<and>
                     extractall archive Map.empty (''build/libs/'' @ stem @ ''.jar'') =
                       Some (File d4)))))"
proof -
  let ?P = "\<lambda>file (a, d).
      if isdir w file then (\<exists>a'. arcname file = Inr a' \<and> a = a' @ ''/'') \<and> d = []
      else arcname file = Inr a \<and> read_file w file = Some d"
  from glob_jar_Cons [OF assms(1)] obtain stem where
    a: "app_file = application_path @ ''/'' @ stem @ ''.jar''" and
    st: "stem \<noteq> []" "hd stem \<noteq> CHR ''.''" and
    mem: "stem @ ''.jar'' \<in> set (listdir_libs w)"
    by blast
  from mem assms(2) have "CHR ''/'' \<notin> set (stem @ ''.jar'')" by blast
  then have ns: "CHR ''/'' \<notin> set stem" by simp
  have a': "app_file = ''./build/libs/'' @ stem @ ''.jar''"
    by (simp add: a application_path_def build_path_def)
  have arc: "arcname app_file = Inr (''build/libs/'' @ stem @ ''.jar'')"
    unfolding a using ns st by (rule arcname_jar)
  note en = extract_name_descriptors extract_name_jar [OF ns st, simplified]
    is_dir_member_simps(1-3) is_dir_member_simps(4-5) [of stem, simplified]
  from package_application_archive [OF assms(3)] obtain archive where
    wr: "written_archives s' (name @ ''.zip'') = Some archive" and
    all: "list_all2 ?P [''./Dockerrun.aws.json'', ''./Dockerfile'', ''env.yaml'', app_file] archive"
    by (auto simp: initial_state_def assms(1))
  from list_all2_four [OF all] obtain z1 z2 z3 z4 where
    z: "archive = [z1, z2, z3, z4]" and
    p: "?P ''./Dockerrun.aws.json'' z1" "?P ''./Dockerfile'' z2" "?P ''env.yaml'' z3" and
    p4: "?P app_file z4"
    by blast
  have detail: "\<not> isdir w ''./Dockerrun.aws.json'' \<and> \<not> isdir w ''./Dockerfile'' \<and>
            \<not> isdir w ''env.yaml'' \<longrightarrow>
            (\<exists>d1 d2 d3.
               read_file w ''./Dockerrun.aws.json'' = Some d1 \<and>
               read_file w ''./Dockerfile'' = Some d2 \<and>
               read_file w ''env.yaml'' = Some d3 \<and>
               dom (extractall archive Map.empty) =
                 {''Dockerrun.aws.json'', ''Dockerfile'', ''env.yaml'',
                  ''build/libs/'' @ stem @ ''.jar''} \<and>
               extractall archive Map.empty ''Dockerrun.aws.json'' = Some (File d1) \<and>
               extractall archive Map.empty ''Dockerfile'' = Some (File d2) \<and>
               extractall archive Map.empty ''env.yaml'' = Some (File d3) \<and>
               (if isdir w app_file then
                  archive = [(''Dockerrun.aws.json'', d1), (''Dockerfile'', d2), (''env.yaml'', d3),
                             (''build/libs/'' @ stem @ ''.jar/'', [])] \<and>
                  extractall archive Map.empty (''build/libs/'' @ stem @ ''.jar'') = Some Directory
                else
                  (\<exists>d4. read_file w app_file = Some d4 \<and>
                     archive = [(''Dockerrun.aws.json'', d1), (''Dockerfile'', d2), (''env.yaml'', d3),
                                (''build/libs/'' @ stem @ ''.jar'', d4)] \<and>
                     extractall archive Map.empty (''build/libs/'' @ stem @ ''.jar'') =
                       Some (File d4))))"
  proof
    assume nd: "\<not> isdir w ''./Dockerrun.aws.json'' \<and> \<not> isdir w ''./Dockerfile'' \<and>
            \<not> isdir w ''env.yaml''"
    obtain d1 d2 d3 where
      zs: "z1 = (''Dockerrun.aws.json'', d1)" "z2 = (''Dockerfile'', d2)" "z3 = (''env.yaml'', d3)" and
      rd: "read_file w ''./Dockerrun.aws.json'' = Some d1" "read_file w ''./Dockerfile'' = Some d2"
          "read_file w ''env.yaml'' = Some d3"
      using p nd by (cases z1; cases z2; cases z3) (simp add: arcname_descriptors)
    obtain a4 d4 where z4: "z4 = (a4, d4)" by (cases z4)
    have n4: "extract_name a4 = ''build/libs/'' @ stem @ ''.jar''"
      using p4 by (auto simp: z4 arc en split: if_splits)
    have ex: "extractall archive Map.empty =
        [''Dockerrun.aws.json'' \<mapsto> File d1, ''Dockerfile'' \<mapsto> File d2, ''env.yaml'' \<mapsto> File d3,
         ''build/libs/'' @ stem @ ''.jar'' \<mapsto> (if is_dir_member a4 then Directory else File d4)]"
      by (simp add: z zs z4 n4 en)
    have dm: "dom (extractall archive Map.empty) =
               {''Dockerrun.aws.json'', ''Dockerfile'', ''env.yaml'', ''build/libs/'' @ stem @ ''.jar''}"
      unfolding ex by auto
    have lk: "extractall archive Map.empty ''Dockerrun.aws.json'' = Some (File d1)"
      "extractall archive Map.empty ''Dockerfile'' = Some (File d2)"
      "extractall archive Map.empty ''env.yaml'' = Some (File d3)"
      unfolding ex by simp_all
    have l4: "extractall archive Map.empty (''build/libs/'' @ stem @ ''.jar'') =
        Some (if is_dir_member a4 then Directory else File d4)"
      unfolding ex by simp
    have last: "if isdir w app_file then
                archive = [(''Dockerrun.aws.json'', d1), (''Dockerfile'', d2), (''env.yaml'', d3),
                           (''build/libs/'' @ stem @ ''.jar/'', [])] \<and>
                extractall archive Map.empty (''build/libs/'' @ stem @ ''.jar'') = Some Directory
              else
                (\<exists>d4. read_file w app_file = Some d4 \<and>
                   archive = [(''Dockerrun.aws.json'', d1), (''Dockerfile'', d2), (''env.yaml'', d3),
                              (''build/libs/'' @ stem @ ''.jar'', d4)] \<and>
                   extractall archive Map.empty (''build/libs/'' @ stem @ ''.jar'') = Some (File d4))"
    proof (cases "isdir w app_file")
      case True
      with p4 have "a4 = ''build/libs/'' @ stem @ ''.jar/''" "d4 = []"
        by (simp_all add: z4 arc)
      with True show ?thesis
        by (simp add: l4 z zs z4 en)
    next
      case False
      with p4 have "a4 = ''build/libs/'' @ stem @ ''.jar''" "read_file w app_file = Some d4"
        by (simp_all add: z4 arc)
      with False show ?thesis
        by (simp add: l4 z zs z4 en)
    qed
    show "\<exists>d1 d2 d3.
               read_file w ''./Dockerrun.aws.json'' = Some d1 \<and>
               read_file w ''./Dockerfile'' = Some d2 \<and>
               read_file w ''env.yaml'' = Some d3 \<and>
               dom (extractall archive Map.empty) =
                 {''Dockerrun.aws.json'', ''Dockerfile'', ''env.yaml'',
                  ''build/libs/'' @ stem @ ''.jar''} \<and>
               extractall archive Map.empty ''Dockerrun.aws.json'' = Some (File d1) \<and>
               extractall archive Map.empty ''Dockerfile'' = Some (File d2) \<and>
               extractall archive Map.empty ''env.yaml'' = Some (File d3) \<and>
               (if isdir w app_file then
                  archive = [(''Dockerrun.aws.json'', d1), (''Dockerfile'', d2), (''env.yaml'', d3),
                             (''build/libs/'' @ stem @ ''.jar/'', [])] \<and>
                  extractall archive Map.empty (''build/libs/'' @ stem @ ''.jar'') = Some Directory
                else
                  (\<exists>d4. read_file w app_file = Some d4 \<and>
                     archive = [(''Dockerrun.aws.json'', d1), (''Dockerfile'', d2), (''env.yaml'', d3),
                                (''build/libs/'' @ stem @ ''.jar'', d4)] \<and>
                     extractall archive Map.empty (''build/libs/'' @ stem @ ''.jar'') =
                       Some (File d4)))"
      apply (rule exI [of _ d1], rule exI [of _ d2], rule exI [of _ d3])
      apply (intro conjI)
      by (rule rd dm lk last)+
  qed
  show ?thesis
    apply (rule exI [of _ stem], rule exI [of _ archive])
    apply (intro conjI)
    by (rule a' wr all detail)+
qed

lemma glob_directory_jar: "glob_jar directory_jar_world = [''./build/libs/classes.jar'']"
  by (simp add: glob_jar_def directory_jar_world_def fresh_world_def ishidden_def endswith_def
        application_path_def build_path_def)

lemma stem_directory_jar: "fst (splitext (basename ''./build/libs/classes.jar'')) = ''classes''"
  by (simp add: splitext_def basename_def Let_def)

lemma stamp_directory_jar: "strftime_Ymd_HMS (localtime directory_jar_world) = ''20240107-130059''"
  by (simp add: strftime_Ymd_HMS_def directory_jar_world_def fresh_world_def pad2_def)

lemma zip_directory_jar:
  "zip_write_all (isdir directory_jar_world) (read_file directory_jar_world)
     [''./Dockerrun.aws.json'', ''./Dockerfile'', ''env.yaml'', ''./build/libs/classes.jar''] [] =
   ([(''Dockerrun.aws.json'', ''{}''), (''Dockerfile'', ''FROM java''), (''env.yaml'', ''a: b''),
     (''build/libs/classes.jar/'', [])], None)"
  by (simp add: directory_jar_world_def fresh_world_def zip_write_def arcname_def normpath_def)

lemma package_directory_jar:
  "package_application directory_jar_world initial_state =
     (\<lparr>elasticbeanstalk_files_list =
         [''./Dockerrun.aws.json'', ''./Dockerfile'', ''env.yaml'', ''./build/libs/classes.jar''],
       written_archives =
         [''classes-20240107-130059.zip'' \<mapsto>
            [(''Dockerrun.aws.json'', ''{}''), (''Dockerfile'', ''FROM java''), (''env.yaml'', ''a: b''),
             (''build/libs/classes.jar/'', [])]]\<rparr>,
      [Print (''All application files zipped successfully to '' @
              quoted ''classes-20240107-130059.zip'' @ '' package\<newline>'')],
      Inr ''classes-20240107-130059'')"
  unfolding package_application_def glob_directory_jar
  by (simp add: stem_directory_jar stamp_directory_jar initial_state_def zip_directory_jar quoted_def
        del: zip_write_all.simps)

theorem archive_contents_witness:
  "glob_jar fresh_world = [''./build/libs/shop-1.0.jar''] \<and>
   listdir_libs fresh_world = [''shop-1.0.jar''] \<and>
   snd (snd (package_application fresh_world initial_state)) = Inr ''shop-1.0-20240107-130059'' \<and>
   written_archives (fst (package_application fresh_world initial_state))
     ''shop-1.0-20240107-130059.zip'' =
     Some [(''Dockerrun.aws.json'', ''{}''), (''Dockerfile'', ''FROM java''), (''env.yaml'', ''a: b''),
           (''build/libs/shop-1.0.jar'', ''PK'')] \<and>
   extractall [(''Dockerrun.aws.json'', ''{}''), (''Dockerfile'', ''FROM java''), (''env.yaml'', ''a: b''),
           (''build/libs/shop-1.0.jar'', ''PK'')] Map.empty ''build/libs/shop-1.0.jar'' =
     Some (File ''PK'')"
proof -
  have l: "listdir_libs fresh_world = [''shop-1.0.jar'']"
    by (simp add: fresh_world_def)
  then have h: "\<forall>n \<in> set (listdir_libs fresh_world). CHR ''/'' \<notin> set n"
    by simp
  have r: "snd (snd (package_application fresh_world initial_state)) = Inr ''shop-1.0-20240107-130059''"
    by (simp add: package_fresh)
  obtain s' t where p: "package_application fresh_world initial_state = (s', t, Inr ''shop-1.0-20240107-130059'')"
    using package_fresh by blast
  have nd: "\<not> isdir fresh_world ''./Dockerrun.aws.json'' \<and> \<not> isdir fresh_world ''./Dockerfile'' \<and>
            \<not> isdir fresh_world ''env.yaml''"
    by (simp add: fresh_world_def)
  have nj: "\<not> isdir fresh_world ''./build/libs/shop-1.0.jar''"
    by (simp add: fresh_world_def)
  from archive_contents [OF glob_fresh h p] obtain stem archive where
    st: "''./build/libs/shop-1.0.jar'' = ''./build/libs/'' @ stem @ ''.jar''" and
    wr: "written_archives s' (''shop-1.0-20240107-130059'' @ ''.zip'') = Some archive" and
    dt: "\<not> isdir fresh_world ''./Dockerrun.aws.json'' \<and> \<not> isdir fresh_world ''./Dockerfile'' \<and>
            \<not> isdir fresh_world ''env.yaml'' \<longrightarrow>
            (\<exists>d1 d2 d3.
               read_file fresh_world ''./Dockerrun.aws.json'' = Some d1 \<and>
               read_file fresh_world ''./Dockerfile'' = Some d2 \<and>
               read_file fresh_world ''env.yaml'' = Some d3 \<and>
               dom (extractall archive Map.empty) =
                 {''Dockerrun.aws.json'', ''Dockerfile'', ''env.yaml'',
                  ''build/libs/'' @ stem @ ''.jar''} \<and>
               extractall archive Map.empty ''Dockerrun.aws.json'' = Some (File d1) \<and>
               extractall archive Map.empty ''Dockerfile'' = Some (File d2) \<and>
               extractall archive Map.empty ''env.yaml'' = Some (File d3) \<and>
               (if isdir fresh_world ''./build/libs/shop-1.0.jar'' then
                  archive = [(''Dockerrun.aws.json'', d1), (''Dockerfile'', d2), (''env.yaml'', d3),
                             (''build/libs/'' @ stem @ ''.jar/'', [])] \<and>
                  extractall archive Map.empty (''build/libs/'' @ stem @ ''.jar'') = Some Directory
                else
                  (\<exists>d4. read_file fresh_world ''./build/libs/shop-1.0.jar'' = Some d4 \<and>
                     archive = [(''Dockerrun.aws.json'', d1), (''Dockerfile'', d2), (''env.yaml'', d3),
                                (''build/libs/'' @ stem @ ''.jar'', d4)] \<and>
                     extractall archive Map.empty (''build/libs/'' @ stem @ ''.jar'') =
                       Some (File d4))))"
    by (elim exE conjE) (rule that; assumption)
  from st have "''shop-1.0'' @ ''.jar'' = stem @ ''.jar''" by simp
  then have stem: "stem = ''shop-1.0''" by (simp only: append_same_eq)
  from dt [rule_format, OF nd] obtain d1 d2 d3 where
    rd: "read_file fresh_world ''./Dockerrun.aws.json'' = Some d1"
        "read_file fresh_world ''./Dockerfile'' = Some d2"
        "read_file fresh_world ''env.yaml'' = Some d3" and
    lst: "if isdir fresh_world ''./build/libs/shop-1.0.jar'' then
                  archive = [(''Dockerrun.aws.json'', d1), (''Dockerfile'', d2), (''env.yaml'', d3),
                             (''build/libs/'' @ stem @ ''.jar/'', [])] \<and>
                  extractall archive Map.empty (''build/libs/'' @ stem @ ''.jar'') = Some Directory
                else
                  (\<exists>d4. read_file fresh_world ''./build/libs/shop-1.0.jar'' = Some d4 \<and>
                     archive = [(''Dockerrun.aws.json'', d1), (''Dockerfile'', d2), (''env.yaml'', d3),
                                (''build/libs/'' @ stem @ ''.jar'', d4)] \<and>
                     extractall archive Map.empty (''build/libs/'' @ stem @ ''.jar'') =
                       Some (File d4))"
    by (elim exE conjE) (rule that; assumption)
  from lst nj obtain d4 where
    r4: "read_file fresh_world ''./build/libs/shop-1.0.jar'' = Some d4" and
    ar: "archive = [(''Dockerrun.aws.json'', d1), (''Dockerfile'', d2), (''env.yaml'', d3),
                                (''build/libs/'' @ stem @ ''.jar'', d4)]" and
    e4: "extractall archive Map.empty (''build/libs/'' @ stem @ ''.jar'') = Some (File d4)"
    by (simp only: if_False) (elim exE conjE, rule that; assumption)
  from rd r4 have d: "d1 = ''{}''" "d2 = ''FROM java''" "d3 = ''a: b''" "d4 = ''PK''"
    by (simp_all add: fresh_world_def)
  from wr have w': "written_archives (fst (package_application fresh_world initial_state))
     ''shop-1.0-20240107-130059.zip'' = Some archive"
    by (simp add: p)
  have ar': "archive = [(''Dockerrun.aws.json'', ''{}''), (''Dockerfile'', ''FROM java''),
      (''env.yaml'', ''a: b''), (''build/libs/shop-1.0.jar'', ''PK'')]"
    unfolding ar stem d by simp
  from e4 have e4': "extractall [(''Dockerrun.aws.json'', ''{}''), (''Dockerfile'', ''FROM java''),
      (''env.yaml'', ''a: b''), (''build/libs/shop-1.0.jar'', ''PK'')] Map.empty
      ''build/libs/shop-1.0.jar'' = Some (File ''PK'')"
    unfolding ar' stem d by simp
  from w' have w'': "written_archives (fst (package_application fresh_world initial_state))
     ''shop-1.0-20240107-130059.zip'' =
     Some [(''Dockerrun.aws.json'', ''{}''), (''Dockerfile'', ''FROM java''), (''env.yaml'', ''a: b''),
           (''build/libs/shop-1.0.jar'', ''PK'')]"
    unfolding ar' .
  show ?thesis
    by (intro conjI) (rule glob_fresh l r w'' e4')+
qed

text \<open>
  Claim C9 as stated, for every located artifact, fails where the only match of
  \<open>*.jar\<close> is a directory: packaging succeeds, the archive holds the directory as a
  member without data, and extraction leaves an empty directory where the build output has
  a class file.
\<close>
theorem directory_artifact_counterexample:
  "glob_jar directory_jar_world = [''./build/libs/classes.jar''] \<and>
   isdir directory_jar_world ''./build/libs/classes.jar'' \<and>
   read_file directory_jar_world ''./build/libs/classes.jar/A.class'' = Some ''CAFE'' \<and>
   snd (package_application directory_jar_world initial_state) =
     ([Print (''All application files zipped successfully to '' @
              quoted ''classes-20240107-130059.zip'' @ '' package\<newline>'')],
      Inr ''classes-20240107-130059'') \<and>
   written_archives (fst (package_application directory_jar_world initial_state))
     ''classes-20240107-130059.zip'' =
     Some [(''Dockerrun.aws.json'', ''{}''), (''Dockerfile'', ''FROM java''), (''env.yaml'', ''a: b''),
           (''build/libs/classes.jar/'', [])] \<and>
   extractall [(''Dockerrun.aws.json'', ''{}''), (''Dockerfile'', ''FROM java''), (''env.yaml'', ''a: b''),
               (''build/libs/classes.jar/'', [])] Map.empty ''build/libs/classes.jar'' =
     Some Directory \<and>
   extractall [(''Dockerrun.aws.json'', ''{}''), (''Dockerfile'', ''FROM java''), (''env.yaml'', ''a: b''),
               (''build/libs/classes.jar/'', [])] Map.empty ''build/libs/classes.jar/A.class'' =
     None"
proof (intro conjI)
  show "glob_jar directory_jar_world = [''./build/libs/classes.jar'']"
    by (rule glob_directory_jar)
  show "isdir directory_jar_world ''./build/libs/classes.jar''"
    by (simp add: directory_jar_world_def)
  show "read_file directory_jar_world ''./build/libs/classes.jar/A.class'' = Some ''CAFE''"
    by (simp add: directory_jar_world_def)
  show "snd (package_application directory_jar_world initial_state) =
     ([Print (''All application files zipped successfully to '' @
              quoted ''classes-20240107-130059.zip'' @ '' package\<newline>'')],
      Inr ''classes-20240107-130059'')"
    by (simp add: package_directory_jar)
  show "written_archives (fst (package_application directory_jar_world initial_state))
     ''classes-20240107-130059.zip'' =
     Some [(''Dockerrun.aws.json'', ''{}''), (''Dockerfile'', ''FROM java''), (''env.yaml'', ''a: b''),
           (''build/libs/classes.jar/'', [])]"
    by (simp add: package_directory_jar)
  show "extractall [(''Dockerrun.aws.json'', ''{}''), (''Dockerfile'', ''FROM java''), (''env.yaml'', ''a: b''),
               (''build/libs/classes.jar/'', [])] Map.empty ''build/libs/classes.jar'' =
     Some Directory"
    by (simp add: extract_name_def is_dir_member_def)
  show "extractall [(''Dockerrun.aws.json'', ''{}''), (''Dockerfile'', ''FROM java''), (''env.yaml'', ''a: b''),
               (''build/libs/classes.jar/'', [])] Map.empty ''build/libs/classes.jar/A.class'' =
     None"
    by (simp add: extract_name_def is_dir_member_def)
qed

lemma take1_hd: "xs \<noteq> [] \<Longrightarrow> take (Suc 0) xs = [hd xs]"
  by (cases xs) simp_all

lemma concat_take1:
  "\<forall>v \<in> set ws. glob_jar v \<noteq> [] \<Longrightarrow>
   concat (map (\<lambda>v. take 1 (glob_jar v)) ws) = map (\<lambda>v. hd (glob_jar v)) ws"
  by (induction ws) (simp_all add: take1_hd)

text \<open>
  Claim C10. \<open>package_application\<close> appends the located artifact to the module-level
  list and never removes it. After \<open>n\<close> calls in one process that each locate an
  artifact, the list is the three descriptors followed by the \<open>n\<close> artifact paths, and
  the archive of a further successful call has one member for every descriptor and for
  every artifact located so far, its own included: a regular file under its normalised
  path with its data, a directory under that path followed by a separator, with no data.
\<close>
theorem package_application_accumulates:
  assumes "\<forall>v \<in> set ws. glob_jar v \<noteq> []"
  shows "elasticbeanstalk_files_list (package_calls ws initial_state) =
           [''./Dockerrun.aws.json'', ''./Dockerfile'', ''env.yaml''] @ map (\<lambda>v. hd (glob_jar v)) ws \<and>
         (\<forall>w s' t name.
            package_application w (package_calls ws initial_state) = (s', t, Inr name) \<longrightarrow>
            s' = package_calls (ws @ [w]) initial_state \<and>
            elasticbeanstalk_files_list s' =
              [''./Dockerrun.aws.json'', ''./Dockerfile'', ''env.yaml''] @
              map (\<lambda>v. hd (glob_jar v)) (ws @ [w]) \<and>
            (\<exists>archive.
               written_archives s' (name @ ''.zip'') = Some archive \<and>
               length archive = 3 + length (ws @ [w]) \<and>
               list_all2 (\<lambda>file (a, d).
                   if isdir w file then (\<exists>a'. arcname file = Inr a' \<and> a = a' @ ''/'') \<and> d = []
                   else arcname file = Inr a \<and> read_file w file = Some d)
                 ([''./Dockerrun.aws.json'', ''./Dockerfile'', ''env.yaml''] @
                  map (\<lambda>v. hd (glob_jar v)) (ws @ [w])) archive))"
proof (intro conjI allI impI)
  show fl: "elasticbeanstalk_files_list (package_calls ws initial_state) =
           [''./Dockerrun.aws.json'', ''./Dockerfile'', ''env.yaml''] @ map (\<lambda>v. hd (glob_jar v)) ws"
    using concat_take1 [OF assms] by (simp add: package_calls_files initial_state_def)
  fix w s' t name
  assume p: "package_application w (package_calls ws initial_state) = (s', t, Inr name)"
  from package_application_name [OF p] have g: "glob_jar w \<noteq> []" by auto
  then have tk: "take (Suc 0) (glob_jar w) = [hd (glob_jar w)]" by (rule take1_hd)
  show s': "s' = package_calls (ws @ [w]) initial_state"
    by (simp add: package_calls_snoc p)
  have "elasticbeanstalk_files_list s' =
      elasticbeanstalk_files_list (package_calls ws initial_state) @ take 1 (glob_jar w)"
    using package_application_files [of w "package_calls ws initial_state"] by (simp add: p)
  then show fl': "elasticbeanstalk_files_list s' =
      [''./Dockerrun.aws.json'', ''./Dockerfile'', ''env.yaml''] @ map (\<lambda>v. hd (glob_jar v)) (ws @ [w])"
    by (simp add: fl tk)
  from package_application_archive [OF p] obtain archive where
    wr: "written_archives s' (name @ ''.zip'') = Some archive" and
    all: "list_all2 (\<lambda>file (a, d).
               if isdir w file then (\<exists>a'. arcname file = Inr a' \<and> a = a' @ ''/'') \<and> d = []
               else arcname file = Inr a \<and> read_file w file = Some d)
             (elasticbeanstalk_files_list (package_calls ws initial_state) @ take 1 (glob_jar w)) archive"
    by blast
  from all have all': "list_all2 (\<lambda>file (a, d).
               if isdir w file then (\<exists>a'. arcname file = Inr a' \<and> a = a' @ ''/'') \<and> d = []
               else arcname file = Inr a \<and> read_file w file = Some d)
        ([''./Dockerrun.aws.json'', ''./Dockerfile'', ''env.yaml''] @
         map (\<lambda>v. hd (glob_jar v)) (ws @ [w])) archive"
    by (simp add: fl tk)
  from list_all2_lengthD [OF all'] have len: "length archive = 3 + length (ws @ [w])"
    by simp
  from wr len all' show "\<exists>archive.
               written_archives s' (name @ ''.zip'') = Some archive \<and>
               length archive = 3 + length (ws @ [w]) \<and>
               list_all2 (\<lambda>file (a, d).
                   if isdir w file then (\<exists>a'. arcname file = Inr a' \<and> a = a' @ ''/'') \<and> d = []
                   else arcname file = Inr a \<and> read_file w file = Some d)
                 ([''./Dockerrun.aws.json'', ''./Dockerfile'', ''env.yaml''] @
                  map (\<lambda>v. hd (glob_jar v)) (ws @ [w])) archive"
    by (intro exI [of _ archive] conjI)
qed

lemma stem_second: "fst (splitext (basename ''./build/libs/shop-1.1.jar'')) = ''shop-1.1''"
  by (simp add: splitext_def basename_def Let_def)

lemma stamp_second: "strftime_Ymd_HMS (localtime second_world) = ''20240107-130100''"
  by (simp add: strftime_Ymd_HMS_def second_world_def fresh_world_def pad2_def)

lemma zip_second:
  "zip_write_all (isdir second_world) (read_file second_world)
     [''./Dockerrun.aws.json'', ''./Dockerfile'', ''env.yaml'', ''./build/libs/shop-1.0.jar'',
      ''./build/libs/shop-1.1.jar''] [] =
   ([(''Dockerrun.aws.json'', ''{}''), (''Dockerfile'', ''FROM java''), (''env.yaml'', ''a: b''),
     (''build/libs/shop-1.0.jar'', ''PK''), (''build/libs/shop-1.1.jar'', ''PK2'')], None)"
  by (simp add: second_world_def fresh_world_def zip_write_def arcname_def normpath_def)

lemma calls_fresh:
  "package_calls [fresh_world] initial_state =
     \<lparr>elasticbeanstalk_files_list =
         [''./Dockerrun.aws.json'', ''./Dockerfile'', ''env.yaml'', ''./build/libs/shop-1.0.jar''],
       written_archives =
         [''shop-1.0-20240107-130059.zip'' \<mapsto>
            [(''Dockerrun.aws.json'', ''{}''), (''Dockerfile'', ''FROM java''), (''env.yaml'', ''a: b''),
             (''build/libs/shop-1.0.jar'', ''PK'')]]\<rparr>"
  by (simp add: package_fresh)

lemma package_second:
  "package_application second_world (package_calls [fresh_world] initial_state) =
     (\<lparr>elasticbeanstalk_files_list =
         [''./Dockerrun.aws.json'', ''./Dockerfile'', ''env.yaml'', ''./build/libs/shop-1.0.jar'',
          ''./build/libs/shop-1.1.jar''],
       written_archives =
         [''shop-1.0-20240107-130059.zip'' \<mapsto>
            [(''Dockerrun.aws.json'', ''{}''), (''Dockerfile'', ''FROM java''), (''env.yaml'', ''a: b''),
             (''build/libs/shop-1.0.jar'', ''PK'')],
          ''shop-1.1-20240107-130100.zip'' \<mapsto>
            [(''Dockerrun.aws.json'', ''{}''), (''Dockerfile'', ''FROM java''), (''env.yaml'', ''a: b''),
             (''build/libs/shop-1.0.jar'', ''PK''), (''build/libs/shop-1.1.jar'', ''PK2'')]]\<rparr>,
      [Print (''All application files zipped successfully to '' @
              quoted ''shop-1.1-20240107-130100.zip'' @ '' package\<newline>'')],
      Inr ''shop-1.1-20240107-130100'')"
  unfolding package_application_def glob_second calls_fresh
  by (simp add: stem_second stamp_second zip_second quoted_def del: zip_write_all.simps)

theorem package_application_accumulates_witness:
  "glob_jar fresh_world = [''./build/libs/shop-1.0.jar''] \<and>
   elasticbeanstalk_files_list (package_calls [fresh_world] initial_state) =
     [''./Dockerrun.aws.json'', ''./Dockerfile'', ''env.yaml'', ''./build/libs/shop-1.0.jar''] \<and>
   snd (snd (package_application second_world (package_calls [fresh_world] initial_state))) =
     Inr ''shop-1.1-20240107-130100'' \<and>
   elasticbeanstalk_files_list (package_calls [fresh_world, second_world] initial_state) =
     [''./Dockerrun.aws.json'', ''./Dockerfile'', ''env.yaml'', ''./build/libs/shop-1.0.jar'',
      ''./build/libs/shop-1.1.jar''] \<and>
   map fst (the (written_archives (package_calls [fresh_world, second_world] initial_state)
      ''shop-1.1-20240107-130100.zip'')) =
     [''Dockerrun.aws.json'', ''Dockerfile'', ''env.yaml'', ''build/libs/shop-1.0.jar'',
      ''build/libs/shop-1.1.jar'']"
proof -
  have h: "\<forall>v \<in> set [fresh_world]. glob_jar v \<noteq> []"
    by (simp add: glob_fresh)
  note t = package_application_accumulates [OF h]
  from t [THEN conjunct1] have
    a: "elasticbeanstalk_files_list (package_calls [fresh_world] initial_state) =
     [''./Dockerrun.aws.json'', ''./Dockerfile'', ''env.yaml'', ''./build/libs/shop-1.0.jar'']"
    by (simp add: glob_fresh del: package_calls.simps)
  note b = t [THEN conjunct2, rule_format, OF package_second]
  from b [THEN conjunct1, symmetric] have
    c: "package_calls [fresh_world, second_world] initial_state =
     \<lparr>elasticbeanstalk_files_list =
         [''./Dockerrun.aws.json'', ''./Dockerfile'', ''env.yaml'', ''./build/libs/shop-1.0.jar'',
          ''./build/libs/shop-1.1.jar''],
       written_archives =
         [''shop-1.0-20240107-130059.zip'' \<mapsto>
            [(''Dockerrun.aws.json'', ''{}''), (''Dockerfile'', ''FROM java''), (''env.yaml'', ''a: b''),
             (''build/libs/shop-1.0.jar'', ''PK'')],
          ''shop-1.1-20240107-130100.zip'' \<mapsto>
            [(''Dockerrun.aws.json'', ''{}''), (''Dockerfile'', ''FROM java''), (''env.yaml'', ''a: b''),
             (''build/libs/shop-1.0.jar'', ''PK''), (''build/libs/shop-1.1.jar'', ''PK2'')]]\<rparr>"
    by (simp del: package_calls.simps)
  have d: "snd (snd (package_application second_world (package_calls [fresh_world] initial_state))) =
     Inr ''shop-1.1-20240107-130100''"
    by (simp only: package_second snd_conv)
  show ?thesis
    unfolding c using a d glob_fresh by (simp del: package_calls.simps)
qed

subsection \<open>Upload\<close>

lemma put_archive_trace:
  assumes "put_archive w s pkg b = (t, r)"
  shows "t = [] \<and> written_archives s (pkg @ ''.zip'') = None \<or>
         (\<exists>body rest. written_archives s (pkg @ ''.zip'') = Some body \<and>
            t = PutObject b (pkg @ ''.zip'') body # rest \<and>
            (rest = [] \<or> (\<exists>x. rest = [Print x])))"
  using assms
  by (auto simp: put_archive_def Let_def split: option.splits sum.splits)

lemma upload_application_version_events:
  assumes "upload_application_version w s pkg = (t, r)"
  shows "(\<forall>acl b loc. CreateBucket acl b loc \<in> set t \<longrightarrow>
            (\<exists>account buckets.
               get_caller_identity_Account w = Inr account \<and>
               buckets_all w = Inr buckets \<and>
               b = ''elasticbeanstalk-'' @ region_name w @ ''-'' @ account \<and>
               b \<notin> set buckets)) \<and>
         (\<forall>b k body. PutObject b k body \<in> set t \<longrightarrow>
            (\<exists>account buckets rest.
               get_caller_identity_Account w = Inr account \<and>
               buckets_all w = Inr buckets \<and>
               b = ''elasticbeanstalk-'' @ region_name w @ ''-'' @ account \<and>
               k = pkg @ ''.zip'' \<and>
               written_archives s k = Some body \<and>
               (rest = [] \<or> (\<exists>x. rest = [Print x])) \<and>
               (if b \<in> set buckets
                then t = [GetCallerIdentity, ListBuckets, PutObject b k body] @ rest
                else (\<exists>response. create_bucket w = Inr response) \<and>
                     t = [GetCallerIdentity, ListBuckets,
                          CreateBucket ''private'' b (region_name w),
                          PutObject b k body] @ rest)))"
proof (cases "get_caller_identity_Account w")
  case (Inl e)
  with assms show ?thesis
    by (auto simp: upload_application_version_def)
next
  case (Inr account)
  note acc = this
  define bkt where "bkt = ''elasticbeanstalk-'' @ region_name w @ ''-'' @ account"
  have bk: "source_bundle_s3_bucket_prefix @ CHR ''-'' # region_name w @ CHR ''-'' # account = bkt"
    by (simp add: bkt_def source_bundle_s3_bucket_prefix_def)
  show ?thesis
  proof (cases "buckets_all w")
    case (Inl e)
    with assms acc show ?thesis
      by (auto simp: upload_application_version_def)
  next
    case (Inr buckets)
    note bs = this
    show ?thesis
    proof (cases "bkt \<in> set buckets")
      case True
      obtain t' where pa: "put_archive w s pkg bkt = (t', r)" and t: "t = [GetCallerIdentity, ListBuckets] @ t'"
        using assms acc bs True
        by (auto simp: upload_application_version_def bk Let_def split: prod.splits)
      from put_archive_trace [OF pa] show ?thesis
        unfolding t using acc bs True by (auto simp: bkt_def)
    next
      case False
      show ?thesis
      proof (cases "create_bucket w")
        case (Inl e)
        with assms acc bs False show ?thesis
          by (auto simp: upload_application_version_def bk Let_def bkt_def)
      next
        case (Inr response)
        obtain t' where pa: "put_archive w s pkg bkt = (t', r)" and
          t: "t = [GetCallerIdentity, ListBuckets, CreateBucket ''private'' bkt (region_name w)] @ t'"
          using assms acc bs False Inr
          by (auto simp: upload_application_version_def bk Let_def split: prod.splits)
        from put_archive_trace [OF pa] show ?thesis
          unfolding t using acc bs False Inr by (auto simp: bkt_def)
      qed
    qed
  qed
qed

lemma upload_application_version_result:
  assumes "upload_application_version w s pkg = (t, r)"
    and "get_caller_identity_Account w = Inr account"
    and "buckets_all w = Inr buckets"
    and "written_archives s (pkg @ ''.zip'') = Some body"
    and "b = ''elasticbeanstalk-'' @ region_name w @ ''-'' @ account"
  shows "(b \<in> set buckets \<longrightarrow>
            (\<forall>response. put_object w = Inr response \<longrightarrow>
               t = [GetCallerIdentity, ListBuckets, PutObject b (pkg @ ''.zip'') body,
                    Print response] \<and>
               r = Inr b) \<and>
            (\<forall>e. put_object w = Inl e \<longrightarrow>
               t = [GetCallerIdentity, ListBuckets, PutObject b (pkg @ ''.zip'') body] \<and>
               r = Inl e)) \<and>
         (b \<notin> set buckets \<longrightarrow>
            (\<forall>e. create_bucket w = Inl e \<longrightarrow>
               t = [GetCallerIdentity, ListBuckets, CreateBucket ''private'' b (region_name w)] \<and>
               r = Inl e) \<and>
            (\<forall>x response. create_bucket w = Inr x \<and> put_object w = Inr response \<longrightarrow>
               t = [GetCallerIdentity, ListBuckets, CreateBucket ''private'' b (region_name w),
                    PutObject b (pkg @ ''.zip'') body, Print response] \<and>
               r = Inr b) \<and>
            (\<forall>x e. create_bucket w = Inr x \<and> put_object w = Inl e \<longrightarrow>
               t = [GetCallerIdentity, ListBuckets, CreateBucket ''private'' b (region_name w),
                    PutObject b (pkg @ ''.zip'') body] \<and>
               r = Inl e))"
proof -
  have bk: "source_bundle_s3_bucket_prefix @ CHR ''-'' # region_name w @ CHR ''-'' # account = b"
    by (simp add: assms(5) source_bundle_s3_bucket_prefix_def)
  have zp: "pkg @ ''.zip'' = k \<Longrightarrow> written_archives s k = Some body" for k
    using assms(4) by simp
  from assms(1) show ?thesis
    unfolding upload_application_version_def put_archive_def assms(2) assms(3)
    by (auto simp: bk Let_def assms(4) [simplified])
qed


text \<open>
  Claim C8. The upload step names the bucket \<open>elasticbeanstalk-<region>-<account>\<close>. It
  issues \<open>create_bucket\<close> only when that name is not among the listed buckets, and every
  \<open>put_object\<close> it issues has the key \<open><package name>.zip\<close> and comes after the listing
  and, when the bucket was missing, after a \<open>create_bucket\<close> that returned. When the
  account and the listing are obtained and the archive exists, the step does issue them:
  its requests are the listing, then \<open>create_bucket\<close> for that name when it was not
  listed, then \<open>put_object\<close> of the archive into that bucket, and it returns the bucket
  name; an error of \<open>create_bucket\<close> or of \<open>put_object\<close> ends the step at that request,
  with that error.
\<close>
theorem upload_ensures_bucket_before_put:
  assumes "upload_application_version w s pkg = (t, r)"
  shows "(\<forall>acl b loc. CreateBucket acl b loc \<in> set t \<longrightarrow>
            (\<exists>account buckets.
               get_caller_identity_Account w = Inr account \<and>
               buckets_all w = Inr buckets \<and>
               b = ''elasticbeanstalk-'' @ region_name w @ ''-'' @ account \<and>
               b \<notin> set buckets)) \<and>
         (\<forall>b k body. PutObject b k body \<in> set t \<longrightarrow>
            (\<exists>account buckets rest.
               get_caller_identity_Account w = Inr account \<and>
               buckets_all w = Inr buckets \<and>
               b = ''elasticbeanstalk-'' @ region_name w @ ''-'' @ account \<and>
               k = pkg @ ''.zip'' \<and>
               written_archives s k = Some body \<and>
               (rest = [] \<or> (\<exists>x. rest = [Print x])) \<and>
               (if b \<in> set buckets
                then t = [GetCallerIdentity, ListBuckets, PutObject b k body] @ rest
                else (\<exists>response. create_bucket w = Inr response) \<and>
                     t = [GetCallerIdentity, ListBuckets,
                          CreateBucket ''private'' b (region_name w),
                          PutObject b k body] @ rest))) \<and>
         (\<forall>account buckets body b.
            get_caller_identity_Account w = Inr account \<and>
            buckets_all w = Inr buckets \<and>
            written_archives s (pkg @ ''.zip'') = Some body \<and>
            b = ''elasticbeanstalk-'' @ region_name w @ ''-'' @ account \<longrightarrow>
            (b \<in> set buckets \<longrightarrow>
               (\<forall>response. put_object w = Inr response \<longrightarrow>
                  t = [GetCallerIdentity, ListBuckets, PutObject b (pkg @ ''.zip'') body,
                       Print response] \<and>
                  r = Inr b) \<and>
               (\<forall>e. put_object w = Inl e \<longrightarrow>
                  t = [GetCallerIdentity, ListBuckets, PutObject b (pkg @ ''.zip'') body] \<and>
                  r = Inl e)) \<and>
            (b \<notin> set buckets \<longrightarrow>
               (\<forall>e. create_bucket w = Inl e \<longrightarrow>
                  t = [GetCallerIdentity, ListBuckets,
                       CreateBucket ''private'' b (region_name w)] \<and>
                  r = Inl e) \<and>
               (\<forall>x response. create_bucket w = Inr x \<and> put_object w = Inr response \<longrightarrow>
                  t = [GetCallerIdentity, ListBuckets,
                       CreateBucket ''private'' b (region_name w),
                       PutObject b (pkg @ ''.zip'') body, Print response] \<and>
                  r = Inr b) \<and>
               (\<forall>x e. create_bucket w = Inr x \<and> put_object w = Inl e \<longrightarrow>
                  t = [GetCallerIdentity, ListBuckets,
                       CreateBucket ''private'' b (region_name w),
                       PutObject b (pkg @ ''.zip'') body] \<and>
                  r = Inl e)))"
proof -
  note ev = upload_application_version_events [OF assms]
  have res: "\<forall>account buckets body b.
            get_caller_identity_Account w = Inr account \<and>
            buckets_all w = Inr buckets \<and>
            written_archives s (pkg @ ''.zip'') = Some body \<and>
            b = ''elasticbeanstalk-'' @ region_name w @ ''-'' @ account \<longrightarrow>
            (b \<in> set buckets \<longrightarrow>
               (\<forall>response. put_object w = Inr response \<longrightarrow>
                  t = [GetCallerIdentity, ListBuckets, PutObject b (pkg @ ''.zip'') body,
                       Print response] \<and>
                  r = Inr b) \<and>
               (\<forall>e. put_object w = Inl e \<longrightarrow>
                  t = [GetCallerIdentity, ListBuckets, PutObject b (pkg @ ''.zip'') body] \<and>
                  r = Inl e)) \<and>
            (b \<notin> set buckets \<longrightarrow>
               (\<forall>e. create_bucket w = Inl e \<longrightarrow>
                  t = [GetCallerIdentity, ListBuckets,
                       CreateBucket ''private'' b (region_name w)] \<and>
                  r = Inl e) \<and>
               (\<forall>x response. create_bucket w = Inr x \<and> put_object w = Inr response \<longrightarrow>
                  t = [GetCallerIdentity, ListBuckets,
                       CreateBucket ''private'' b (region_name w),
                       PutObject b (pkg @ ''.zip'') body, Print response] \<and>
                  r = Inr b) \<and>
               (\<forall>x e. create_bucket w = Inr x \<and> put_object w = Inl e \<longrightarrow>
                  t = [GetCallerIdentity, ListBuckets,
                       CreateBucket ''private'' b (region_name w),
                       PutObject b (pkg @ ''.zip'') body] \<and>
                  r = Inl e))"
  proof (intro allI impI, elim conjE)
    fix account buckets body b
    assume "get_caller_identity_Account w = Inr account" "buckets_all w = Inr buckets"
      "written_archives s (pkg @ ''.zip'') = Some body"
      "b = ''elasticbeanstalk-'' @ region_name w @ ''-'' @ account"
    with assms show "(b \<in> set buckets \<longrightarrow>
               (\<forall>response. put_object w = Inr response \<longrightarrow>
                  t = [GetCallerIdentity, ListBuckets, PutObject b (pkg @ ''.zip'') body,
                       Print response] \<and>
                  r = Inr b) \<and>
               (\<forall>e. put_object w = Inl e \<longrightarrow>
                  t = [GetCallerIdentity, ListBuckets, PutObject b (pkg @ ''.zip'') body] \<and>
                  r = Inl e)) \<and>
            (b \<notin> set buckets \<longrightarrow>
               (\<forall>e. create_bucket w = Inl e \<longrightarrow>
                  t = [GetCallerIdentity, ListBuckets,
                       CreateBucket ''private'' b (region_name w)] \<and>
                  r = Inl e) \<and>
               (\<forall>x response. create_bucket w = Inr x \<and> put_object w = Inr response \<longrightarrow>
                  t = [GetCallerIdentity, ListBuckets,
                       CreateBucket ''private'' b (region_name w),
                       PutObject b (pkg @ ''.zip'') body, Print response] \<and>
                  r = Inr b) \<and>
               (\<forall>x e. create_bucket w = Inr x \<and> put_object w = Inl e \<longrightarrow>
                  t = [GetCallerIdentity, ListBuckets,
                       CreateBucket ''private'' b (region_name w),
                       PutObject b (pkg @ ''.zip'') body] \<and>
                  r = Inl e))"
      by (rule upload_application_version_result)
  qed
  show ?thesis
    by (intro conjI) (rule ev [THEN conjunct1] ev [THEN conjunct2] res)+
qed

lemma state_fresh:
  "fst (package_application fresh_world initial_state) =
     \<lparr>elasticbeanstalk_files_list =
         [''./Dockerrun.aws.json'', ''./Dockerfile'', ''env.yaml'', ''./build/libs/shop-1.0.jar''],
       written_archives =
         [''shop-1.0-20240107-130059.zip'' \<mapsto>
            [(''Dockerrun.aws.json'', ''{}''), (''Dockerfile'', ''FROM java''), (''env.yaml'', ''a: b''),
             (''build/libs/shop-1.0.jar'', ''PK'')]]\<rparr>"
  by (simp add: package_fresh)

lemma upload_fresh:
  "upload_application_version fresh_world (fst (package_application fresh_world initial_state))
     ''shop-1.0-20240107-130059'' =
   ([GetCallerIdentity, ListBuckets,
     CreateBucket ''private'' ''elasticbeanstalk-eu-west-1-123456789012'' ''eu-west-1'',
     PutObject ''elasticbeanstalk-eu-west-1-123456789012'' ''shop-1.0-20240107-130059.zip''
       [(''Dockerrun.aws.json'', ''{}''), (''Dockerfile'', ''FROM java''), (''env.yaml'', ''a: b''),
        (''build/libs/shop-1.0.jar'', ''PK'')],
     Print ''s3.Object''],
    Inr ''elasticbeanstalk-eu-west-1-123456789012'')"
  unfolding state_fresh
  by (simp add: upload_application_version_def put_archive_def fresh_world_def
        source_bundle_s3_bucket_prefix_def Let_def)

theorem upload_ensures_bucket_before_put_witness:
  "get_caller_identity_Account fresh_world = Inr ''123456789012'' \<and>
   buckets_all fresh_world = Inr [] \<and>
   create_bucket fresh_world = Inr ''{}'' \<and>
   put_object fresh_world = Inr ''s3.Object'' \<and>
   written_archives (fst (package_application fresh_world initial_state))
     ''shop-1.0-20240107-130059.zip'' =
     Some [(''Dockerrun.aws.json'', ''{}''), (''Dockerfile'', ''FROM java''), (''env.yaml'', ''a: b''),
           (''build/libs/shop-1.0.jar'', ''PK'')] \<and>
   upload_application_version fresh_world (fst (package_application fresh_world initial_state))
     ''shop-1.0-20240107-130059'' =
   ([GetCallerIdentity, ListBuckets,
     CreateBucket ''private'' ''elasticbeanstalk-eu-west-1-123456789012'' ''eu-west-1'',
     PutObject ''elasticbeanstalk-eu-west-1-123456789012'' ''shop-1.0-20240107-130059.zip''
       [(''Dockerrun.aws.json'', ''{}''), (''Dockerfile'', ''FROM java''), (''env.yaml'', ''a: b''),
        (''build/libs/shop-1.0.jar'', ''PK'')],
     Print ''s3.Object''],
    Inr ''elasticbeanstalk-eu-west-1-123456789012'') \<and>
   buckets_all updating_world = Inr [''elasticbeanstalk-eu-west-1-123456789012''] \<and>
   upload_application_version updating_world (fst (package_application fresh_world initial_state))
     ''shop-1.0-20240107-130059'' =
   ([GetCallerIdentity, ListBuckets,
     PutObject ''elasticbeanstalk-eu-west-1-123456789012'' ''shop-1.0-20240107-130059.zip''
       [(''Dockerrun.aws.json'', ''{}''), (''Dockerfile'', ''FROM java''), (''env.yaml'', ''a: b''),
        (''build/libs/shop-1.0.jar'', ''PK'')],
     Print ''s3.Object''],
    Inr ''elasticbeanstalk-eu-west-1-123456789012'')"
proof -
  let ?body = "[(''Dockerrun.aws.json'', ''{}''), (''Dockerfile'', ''FROM java''), (''env.yaml'', ''a: b''),
        (''build/libs/shop-1.0.jar'', ''PK'')]"
  let ?s = "fst (package_application fresh_world initial_state)"
  let ?b = "''elasticbeanstalk-eu-west-1-123456789012''"
  have a: "get_caller_identity_Account fresh_world = Inr ''123456789012''"
    and bs: "buckets_all fresh_world = Inr []"
    and cb: "create_bucket fresh_world = Inr ''{}''"
    and po: "put_object fresh_world = Inr ''s3.Object''"
    and rn: "region_name fresh_world = ''eu-west-1''"
    by (simp_all add: fresh_world_def)
  have a': "get_caller_identity_Account updating_world = Inr ''123456789012''"
    and bs': "buckets_all updating_world = Inr [?b]"
    and po': "put_object updating_world = Inr ''s3.Object''"
    and rn': "region_name updating_world = ''eu-west-1''"
    by (simp_all add: updating_world_def fresh_world_def)
  have wr: "written_archives ?s (''shop-1.0-20240107-130059'' @ ''.zip'') = Some ?body"
    unfolding state_fresh by simp
  have nm: "?b = ''elasticbeanstalk-'' @ region_name fresh_world @ ''-'' @ ''123456789012''"
    unfolding rn by simp
  have nm': "?b = ''elasticbeanstalk-'' @ region_name updating_world @ ''-'' @ ''123456789012''"
    unfolding rn' by simp
  obtain t r where u: "upload_application_version fresh_world ?s ''shop-1.0-20240107-130059'' = (t, r)"
    by (cases "upload_application_version fresh_world ?s ''shop-1.0-20240107-130059''")
  obtain t' r' where u': "upload_application_version updating_world ?s ''shop-1.0-20240107-130059'' = (t', r')"
    by (cases "upload_application_version updating_world ?s ''shop-1.0-20240107-130059''")
  have "?b \<notin> set []" by simp
  with upload_ensures_bucket_before_put [OF u, THEN conjunct2, THEN conjunct2, rule_format,
      OF conjI [OF a conjI [OF bs conjI [OF wr nm]]], THEN conjunct2, rule_format,
      THEN conjunct2, THEN conjunct1, rule_format, OF _ conjI [OF cb po]]
  have "t = [GetCallerIdentity, ListBuckets,
        CreateBucket ''private'' ?b (region_name fresh_world),
        PutObject ?b (''shop-1.0-20240107-130059'' @ ''.zip'') ?body, Print ''s3.Object''] \<and>
       r = Inr ?b"
    by blast
  with u have 1: "upload_application_version fresh_world ?s ''shop-1.0-20240107-130059'' =
     ([GetCallerIdentity, ListBuckets, CreateBucket ''private'' ?b ''eu-west-1'',
       PutObject ?b ''shop-1.0-20240107-130059.zip'' ?body, Print ''s3.Object''], Inr ?b)"
    by (simp add: rn)
  have "?b \<in> set [?b]" by simp
  with upload_ensures_bucket_before_put [OF u', THEN conjunct2, THEN conjunct2, rule_format,
      OF conjI [OF a' conjI [OF bs' conjI [OF wr nm']]], THEN conjunct1, rule_format,
      THEN conjunct1, rule_format, OF _ po']
  have "t' = [GetCallerIdentity, ListBuckets,
        PutObject ?b (''shop-1.0-20240107-130059'' @ ''.zip'') ?body, Print ''s3.Object''] \<and>
       r' = Inr ?b"
    by blast
  with u' have 2: "upload_application_version updating_world ?s ''shop-1.0-20240107-130059'' =
     ([GetCallerIdentity, ListBuckets,
       PutObject ?b ''shop-1.0-20240107-130059.zip'' ?body, Print ''s3.Object''], Inr ?b)"
    by simp
  from wr have wr': "written_archives ?s ''shop-1.0-20240107-130059.zip'' = Some ?body"
    by simp
  show ?thesis
    by (intro conjI) (rule a bs cb po wr' 1 bs' 2)+
qed

subsection \<open>The wait loop\<close>

text \<open>
  The loop returns exactly when some poll answers without an operation in progress (or
  raises); it then has made one more round per earlier poll, and its value is the answer
  of that poll.
\<close>

lemma wait_loop_stop:
  "\<not> operation_in_progress cfg \<Longrightarrow> wait_loop w i cfg printed t = Some (t, Inr cfg)"
  by (subst wait_loop.simps) simp

lemma polling_trace_0: "polling_trace w printed 0 = []"
  by (simp add: polling_trace_def)

lemma polling_trace_Suc:
  "(if \<not> printed then t @ [Print (waiting_notice w)] else t) @
     [Sleep 30, DescribeEnvironments (arguments_application_name w) [environment_name w]] @
     polling_trace w True m =
   t @ polling_trace w printed (Suc m)"
  by (simp add: polling_trace_def)

lemma wait_loop_run:
  assumes "operation_in_progress cfg"
    and "\<forall>k. 0 < k \<and> k < n \<longrightarrow> in_progress_at w (i + k)"
    and "\<not> in_progress_at w (i + n)"
    and "0 < n"
  shows "wait_loop w i cfg printed t =
           Some (t @ polling_trace w printed n, describe_environments w (i + n))"
  using assms
proof (induction n arbitrary: i cfg printed t)
  case 0
  then show ?case by simp
next
  case (Suc m)
  let ?t2 = "(if \<not> printed then t @ [Print (waiting_notice w)] else t) @
     [Sleep 30, DescribeEnvironments (arguments_application_name w) [environment_name w]]"
  have unfold: "wait_loop w i cfg printed t =
      (case describe_environments w (Suc i) of
         Inl e \<Rightarrow> Some (?t2, Inl e)
       | Inr cfg' \<Rightarrow> wait_loop w (Suc i) cfg' True ?t2)"
    using Suc.prems(1) by (subst wait_loop.simps) (simp add: Let_def)
  show ?case
  proof (cases "m = 0")
    case True
    with Suc.prems(3) have stop: "\<not> in_progress_at w (Suc i)" by simp
    have tr: "?t2 = t @ polling_trace w printed (Suc 0)"
      using polling_trace_Suc [of printed t w 0] by (simp add: polling_trace_0)
    show ?thesis
    proof (cases "describe_environments w (Suc i)")
      case (Inl e)
      then show ?thesis
        unfolding unfold using True tr by simp
    next
      case (Inr cfg')
      with stop have "\<not> operation_in_progress cfg'"
        by (simp add: in_progress_at_def)
      then have "wait_loop w (Suc i) cfg' True ?t2 = Some (?t2, Inr cfg')"
        by (rule wait_loop_stop)
      then show ?thesis
        unfolding unfold using True tr Inr by simp
    qed
  next
    case False
    then have m: "0 < m" by simp
    then have "0 < (1::nat) \<and> 1 < Suc m" by simp
    with Suc.prems(2) have "in_progress_at w (i + 1)" by blast
    then obtain cfg' where d: "describe_environments w (Suc i) = Inr cfg'"
      and op: "operation_in_progress cfg'"
      by (auto simp: in_progress_at_def split: sum.splits)
    have rest: "\<forall>k. 0 < k \<and> k < m \<longrightarrow> in_progress_at w (Suc i + k)"
    proof (intro allI impI)
      fix k assume "0 < k \<and> k < m"
      then have "0 < Suc k \<and> Suc k < Suc m" by simp
      with Suc.prems(2) have "in_progress_at w (i + Suc k)" by blast
      then show "in_progress_at w (Suc i + k)" by simp
    qed
    have last: "\<not> in_progress_at w (Suc i + m)"
      using Suc.prems(3) by simp
    from Suc.IH [OF op rest last m] have
      "wait_loop w (Suc i) cfg' True ?t2 =
         Some (?t2 @ polling_trace w True m, describe_environments w (Suc i + m))" .
    moreover have "?t2 @ polling_trace w True m = t @ polling_trace w printed (Suc m)"
      using polling_trace_Suc [of printed t w m] by simp
    ultimately show ?thesis
      unfolding unfold d by simp
  qed
qed

lemma await_environment_run:
  assumes "\<forall>k<n. in_progress_at w k" and "\<not> in_progress_at w n"
  shows "await_environment w =
           Some (DescribeEnvironments (arguments_application_name w) [environment_name w] #
                   polling_trace w False n,
                 describe_environments w n)"
proof (cases "n = 0")
  case True
  show ?thesis
  proof (cases "describe_environments w 0")
    case (Inl e)
    then show ?thesis
      using True by (simp add: await_environment_def polling_trace_0)
  next
    case (Inr cfg)
    with assms(2) True have "\<not> operation_in_progress cfg"
      by (simp add: in_progress_at_def)
    then show ?thesis
      using True Inr by (simp add: await_environment_def polling_trace_0 wait_loop_stop)
  qed
next
  case False
  then have n: "0 < n" by simp
  with assms(1) have "in_progress_at w 0" by blast
  then obtain cfg where d: "describe_environments w 0 = Inr cfg"
    and op: "operation_in_progress cfg"
    by (auto simp: in_progress_at_def split: sum.splits)
  have rest: "\<forall>k. 0 < k \<and> k < n \<longrightarrow> in_progress_at w (0 + k)"
    using assms(1) by simp
  have last: "\<not> in_progress_at w (0 + n)"
    using assms(2) by simp
  from wait_loop_run [OF op rest last n] show ?thesis
    by (simp add: await_environment_def d)
qed

lemma wait_loop_Some_stops:
  assumes "wait_loop w i cfg printed t = Some y"
  shows "\<not> operation_in_progress cfg \<or> (\<exists>n. \<not> in_progress_at w (i + Suc n))"
proof (rule wait_loop.raw_induct
    [where P = "\<lambda>w i cfg printed t y.
        \<not> operation_in_progress cfg \<or> (\<exists>n. \<not> in_progress_at w (i + Suc n))",
     OF _ assms], goal_cases)
  case (1 wl w i cfg printed t y)
  show ?case
  proof (cases "operation_in_progress cfg")
    case False
    then show ?thesis by simp
  next
    case True
    show ?thesis
    proof (cases "describe_environments w (Suc i)")
      case (Inl e)
      then have "\<not> in_progress_at w (i + Suc 0)"
        by (simp add: in_progress_at_def)
      then show ?thesis by blast
    next
      case (Inr cfg')
      with 1(2) True obtain t2 where "wl w (Suc i) cfg' True t2 = Some y"
        by (auto simp: Let_def)
      from 1(1) [OF this] show ?thesis
      proof
        assume "\<not> operation_in_progress cfg'"
        with Inr have "\<not> in_progress_at w (i + Suc 0)"
          by (simp add: in_progress_at_def)
        then show ?thesis by blast
      next
        assume "\<exists>n. \<not> in_progress_at w (Suc i + Suc n)"
        then obtain n where "\<not> in_progress_at w (Suc i + Suc n)" ..
        then have "\<not> in_progress_at w (i + Suc (Suc n))" by simp
        then show ?thesis by blast
      qed
    qed
  qed
qed

lemma await_environment_None:
  assumes "\<forall>k. in_progress_at w k"
  shows "await_environment w = None"
proof (rule ccontr)
  assume "await_environment w \<noteq> None"
  then obtain y where y: "await_environment w = Some y" by auto
  from assms have "in_progress_at w 0" ..
  then obtain cfg where d: "describe_environments w 0 = Inr cfg"
    and op: "operation_in_progress cfg"
    by (auto simp: in_progress_at_def split: sum.splits)
  from y d obtain t where "wait_loop w 0 cfg False t = Some y"
    by (auto simp: await_environment_def Let_def)
  from wait_loop_Some_stops [OF this] op assms show False by blast
qed

lemma await_environment_Some:
  assumes "await_environment w = Some (t, r)"
  shows "\<exists>n. (\<forall>k<n. in_progress_at w k) \<and> \<not> in_progress_at w n \<and>
           t = DescribeEnvironments (arguments_application_name w) [environment_name w] #
                 polling_trace w False n \<and>
           r = describe_environments w n"
proof -
  from assms await_environment_None have "\<exists>m. \<not> in_progress_at w m"
    by force
  then obtain m where m: "\<not> in_progress_at w m" ..
  define n where "n = (LEAST m. \<not> in_progress_at w m)"
  have stop: "\<not> in_progress_at w n"
    unfolding n_def using m by (rule LeastI)
  have before: "\<forall>k<n. in_progress_at w k"
    unfolding n_def using not_less_Least by blast
  from await_environment_run [OF before stop] assms before stop show ?thesis
    by auto
qed

text \<open>The bounded loop agrees with the loop, and says what a run has done so far.\<close>

lemma wait_rounds_stopped:
  "\<not> operation_in_progress cfg \<Longrightarrow> wait_rounds w i cfg printed t k = t"
  by (cases k) simp_all

lemma count_wait_rounds:
  "count_list (wait_rounds w i cfg printed t k) (Print (waiting_notice w)) =
     count_list t (Print (waiting_notice w)) +
     (if operation_in_progress cfg \<and> 0 < k \<and> \<not> printed then 1 else 0)"
  by (induction k arbitrary: i cfg printed t) (auto simp: Let_def split: sum.splits)

lemma requests_wait_rounds:
  "filter is_environment_request (wait_rounds w i cfg printed t k) =
     filter is_environment_request t"
  by (induction k arbitrary: i cfg printed t)
    (auto simp: Let_def is_environment_request_def split: sum.splits)

lemma wait_rounds_agrees:
  assumes "wait_loop w i cfg printed t = Some y"
  shows "\<exists>k. \<forall>k'\<ge>k. wait_rounds w i cfg printed t k' = fst y"
proof (rule wait_loop.raw_induct
    [where P = "\<lambda>w i cfg printed t y. \<exists>k. \<forall>k'\<ge>k. wait_rounds w i cfg printed t k' = fst y",
     OF _ assms], goal_cases)
  case (1 wl w i cfg printed t y)
  show ?case
  proof (cases "operation_in_progress cfg")
    case False
    with 1(2) have "fst y = t" by auto
    with False have "\<forall>k'\<ge>0. wait_rounds w i cfg printed t k' = fst y"
      by (simp add: wait_rounds_stopped)
    then show ?thesis ..
  next
    case True
    let ?t2 = "(if \<not> printed then t @ [Print (waiting_notice w)] else t) @
       [Sleep 30, DescribeEnvironments (arguments_application_name w) [environment_name w]]"
    show ?thesis
    proof (cases "describe_environments w (Suc i)")
      case (Inl e)
      with 1(2) True have y: "fst y = ?t2" by (auto simp: Let_def)
      have "\<forall>k'\<ge>Suc 0. wait_rounds w i cfg printed t k' = fst y"
      proof (intro allI impI)
        fix k' assume "Suc 0 \<le> k'"
        then obtain j where "k' = Suc j" by (cases k') auto
        with True Inl y show "wait_rounds w i cfg printed t k' = fst y"
          by (simp add: Let_def)
      qed
      then show ?thesis ..
    next
      case (Inr cfg')
      with 1(2) True have "wl w (Suc i) cfg' True ?t2 = Some y"
        by (auto simp: Let_def)
      from 1(1) [OF this] obtain k where
        k: "\<forall>k'\<ge>k. wait_rounds w (Suc i) cfg' True ?t2 k' = fst y" ..
      have "\<forall>k'\<ge>Suc k. wait_rounds w i cfg printed t k' = fst y"
      proof (intro allI impI)
        fix k' assume "Suc k \<le> k'"
        then obtain j where j: "k' = Suc j" "k \<le> j" by (cases k') auto
        with k have "wait_rounds w (Suc i) cfg' True ?t2 j = fst y" by blast
        with True Inr j show "wait_rounds w i cfg printed t k' = fst y"
          by (simp add: Let_def)
      qed
      then show ?thesis ..
    qed
  qed
qed

subsection \<open>The events of each step\<close>

lemma is_create_application_simps [simp]:
  "is_create_application (CreateApplication a d)"
  "\<not> is_create_application (Print x)"
  "\<not> is_create_application (PrintJson x)"
  "\<not> is_create_application (Sleep secs)"
  "\<not> is_create_application (Rmtree p)"
  "\<not> is_create_application Chdir_script_dir"
  "\<not> is_create_application (Popen argv)"
  "\<not> is_create_application (DescribeApplications ns)"
  "\<not> is_create_application GetCallerIdentity"
  "\<not> is_create_application ListBuckets"
  "\<not> is_create_application (CreateBucket acl b loc)"
  "\<not> is_create_application (PutObject b k body)"
  "\<not> is_create_application (CreateApplicationVersion a v b k ac pr)"
  "\<not> is_create_application (DescribeEnvironments a ns)"
  "\<not> is_create_application (CreateEnvironment a n d c v)"
  "\<not> is_create_application (UpdateEnvironment a n v)"
  by (simp_all add: is_create_application_def)

lemma is_create_application_version_simps [simp]:
  "is_create_application_version (CreateApplicationVersion a v b k ac pr)"
  "\<not> is_create_application_version (Print x)"
  "\<not> is_create_application_version (PrintJson x)"
  "\<not> is_create_application_version (Sleep secs)"
  "\<not> is_create_application_version (Rmtree p)"
  "\<not> is_create_application_version Chdir_script_dir"
  "\<not> is_create_application_version (Popen argv)"
  "\<not> is_create_application_version (DescribeApplications ns)"
  "\<not> is_create_application_version GetCallerIdentity"
  "\<not> is_create_application_version ListBuckets"
  "\<not> is_create_application_version (CreateBucket acl b loc)"
  "\<not> is_create_application_version (PutObject b k body)"
  "\<not> is_create_application_version (CreateApplication a d)"
  "\<not> is_create_application_version (DescribeEnvironments a ns)"
  "\<not> is_create_application_version (CreateEnvironment a n d c v)"
  "\<not> is_create_application_version (UpdateEnvironment a n v)"
  by (simp_all add: is_create_application_version_def)

lemma is_environment_request_simps [simp]:
  "is_environment_request (CreateEnvironment a n d c v)"
  "is_environment_request (UpdateEnvironment a n v)"
  "\<not> is_environment_request (Print x)"
  "\<not> is_environment_request (PrintJson x)"
  "\<not> is_environment_request (Sleep secs)"
  "\<not> is_environment_request (Rmtree p)"
  "\<not> is_environment_request Chdir_script_dir"
  "\<not> is_environment_request (Popen argv)"
  "\<not> is_environment_request (DescribeApplications ns)"
  "\<not> is_environment_request GetCallerIdentity"
  "\<not> is_environment_request ListBuckets"
  "\<not> is_environment_request (CreateBucket acl b loc)"
  "\<not> is_environment_request (PutObject b k body)"
  "\<not> is_environment_request (CreateApplication a d)"
  "\<not> is_environment_request (CreateApplicationVersion a v b k ac pr)"
  "\<not> is_environment_request (DescribeEnvironments a ns)"
  by (simp_all add: is_environment_request_def)

lemma is_describe_environments_simps [simp]:
  "is_describe_environments (DescribeEnvironments a ns)"
  "\<not> is_describe_environments (Print x)"
  "\<not> is_describe_environments (PrintJson x)"
  "\<not> is_describe_environments (Sleep secs)"
  "\<not> is_describe_environments (Rmtree p)"
  "\<not> is_describe_environments Chdir_script_dir"
  "\<not> is_describe_environments (Popen argv)"
  "\<not> is_describe_environments (DescribeApplications ns)"
  "\<not> is_describe_environments GetCallerIdentity"
  "\<not> is_describe_environments ListBuckets"
  "\<not> is_describe_environments (CreateBucket acl b loc)"
  "\<not> is_describe_environments (PutObject b k body)"
  "\<not> is_describe_environments (CreateApplication a d)"
  "\<not> is_describe_environments (CreateApplicationVersion a v b k ac pr)"
  "\<not> is_describe_environments (CreateEnvironment a n d c v)"
  "\<not> is_describe_environments (UpdateEnvironment a n v)"
  by (simp_all add: is_describe_environments_def)

text \<open>Which events each step can issue.\<close>

lemma ensure_application_filter:
  "filter is_create_application (fst (ensure_application w)) =
     (if describe_applications w = Inr []
      then [CreateApplication (arguments_application_name w)
              (arguments_application_name w @ '' Application'')]
      else [])"
  "filter is_create_application_version (fst (ensure_application w)) = []"
  "filter is_environment_request (fst (ensure_application w)) = []"
  "filter is_describe_environments (fst (ensure_application w)) = []"
  by (auto simp: ensure_application_def print_response_def Let_def split: sum.splits)

lemma build_application_filter:
  "filter is_create_application (fst (build_application w)) = []"
  "filter is_create_application_version (fst (build_application w)) = []"
  "filter is_environment_request (fst (build_application w)) = []"
  "filter is_describe_environments (fst (build_application w)) = []"
  by (auto simp: build_application_def print_result_def Let_def split: sum.splits prod.splits)

lemma package_application_filter:
  "filter is_create_application (fst (snd (package_application w s))) = []"
  "filter is_create_application_version (fst (snd (package_application w s))) = []"
  "filter is_environment_request (fst (snd (package_application w s))) = []"
  "filter is_describe_environments (fst (snd (package_application w s))) = []"
  by (auto simp: package_application_def Let_def split: list.splits prod.splits option.splits)

lemma put_archive_filter:
  "filter is_create_application (fst (put_archive w s pkg b)) = []"
  "filter is_create_application_version (fst (put_archive w s pkg b)) = []"
  "filter is_environment_request (fst (put_archive w s pkg b)) = []"
  "filter is_describe_environments (fst (put_archive w s pkg b)) = []"
  by (auto simp: put_archive_def Let_def split: sum.splits option.splits)

lemma upload_application_version_filter:
  "filter is_create_application (fst (upload_application_version w s pkg)) = []"
  "filter is_create_application_version (fst (upload_application_version w s pkg)) = []"
  "filter is_environment_request (fst (upload_application_version w s pkg)) = []"
  "filter is_describe_environments (fst (upload_application_version w s pkg)) = []"
  by (simp_all add: upload_application_version_def put_archive_filter Let_def case_prod_beta
        split: sum.splits)

lemma register_version_filter:
  "filter is_create_application (fst (register_version w pkg b)) = []"
  "filter is_environment_request (fst (register_version w pkg b)) = []"
  "filter is_describe_environments (fst (register_version w pkg b)) = []"
  by (auto simp: register_version_def print_response_def Let_def split: sum.splits)

lemma pipeline_filter:
  "filter is_create_application (fst (snd (pipeline w s))) =
     filter is_create_application (fst (ensure_application w))"
  "filter is_environment_request (fst (snd (pipeline w s))) = []"
  "filter is_describe_environments (fst (snd (pipeline w s))) = []"
  by (simp_all add: pipeline_def Let_def case_prod_beta ensure_application_filter
        build_application_filter package_application_filter upload_application_version_filter
        register_version_filter split: sum.splits)

lemma pipeline_prefix:
  "\<exists>rest. fst (snd (pipeline w s)) = fst (ensure_application w) @ rest \<and>
          filter is_create_application rest = []"
  by (simp add: pipeline_def Let_def case_prod_beta
        build_application_filter package_application_filter upload_application_version_filter
        register_version_filter split: sum.splits)

lemma polling_trace_filter:
  "filter is_create_application (polling_trace w printed n) = []"
  "filter is_create_application_version (polling_trace w printed n) = []"
  "filter is_environment_request (polling_trace w printed n) = []"
  by (simp_all add: polling_trace_def filter_concat)

lemma polling_trace_describe:
  "length (filter is_describe_environments (polling_trace w printed n)) = n"
  by (induction n) (simp_all add: polling_trace_def)

lemma create_or_update_filter:
  "filter is_environment_request (fst (create_or_update w pkg cfg)) =
     [if cfg = [] \<or> Status (hd cfg) = ''Terminated''
      then CreateEnvironment (arguments_application_name w) (environment_name w)
             (environment_name w @ '' Environment'') (environment_name w) pkg
      else UpdateEnvironment (arguments_application_name w) (environment_name w) pkg]"
  "filter is_create_application (fst (create_or_update w pkg cfg)) = []"
  "filter is_create_application_version (fst (create_or_update w pkg cfg)) = []"
  "filter is_describe_environments (fst (create_or_update w pkg cfg)) = []"
  by (auto simp: create_or_update_def print_response_def Let_def split: sum.splits)

lemma main_cases:
  assumes "main w s = Some (s', t, r)"
  obtains (pipeline_error) e where "pipeline w s = (s', t, Inl e)" "r = Inl e"
  | (poll_error) pkg t0 t1 e where "pipeline w s = (s', t0, Inr pkg)"
      "await_environment w = Some (t1, Inl e)" "t = t0 @ t1" "r = Inl e"
  | (decided) pkg t0 t1 cfg t2 where "pipeline w s = (s', t0, Inr pkg)"
      "await_environment w = Some (t1, Inr cfg)" "create_or_update w pkg cfg = (t2, r)"
      "t = t0 @ t1 @ t2"
  using assms
  by (auto simp: main_def split: prod.splits sum.splits option.splits)

lemma await_environment_filter:
  assumes "await_environment w = Some (t, r)"
  shows "filter is_create_application t = []"
    and "filter is_create_application_version t = []"
    and "filter is_environment_request t = []"
  using await_environment_Some [OF assms] by (auto simp: polling_trace_filter)

subsection \<open>Ensuring the application\<close>

lemma main_prefix:
  assumes "main w s = Some (s', t, r)"
  shows "\<exists>rest. t = fst (ensure_application w) @ rest \<and> filter is_create_application rest = []"
  using assms
proof (cases rule: main_cases)
  case (pipeline_error e)
  with pipeline_prefix [of w s] show ?thesis by simp
next
  case (poll_error pkg t0 t1 e)
  from pipeline_prefix [of w s] poll_error(1) obtain rest where
    "t0 = fst (ensure_application w) @ rest" "filter is_create_application rest = []"
    by auto
  with poll_error(3) await_environment_filter(1) [OF poll_error(2)]
  have "t = fst (ensure_application w) @ (rest @ t1) \<and> filter is_create_application (rest @ t1) = []"
    by simp
  then show ?thesis by blast
next
  case (decided pkg t0 t1 cfg t2)
  from pipeline_prefix [of w s] decided(1) obtain rest where
    "t0 = fst (ensure_application w) @ rest" "filter is_create_application rest = []"
    by auto
  moreover from create_or_update_filter(2) [of w pkg cfg] decided(3)
  have "filter is_create_application t2 = []" by simp
  ultimately have "t = fst (ensure_application w) @ (rest @ t1 @ t2) \<and>
      filter is_create_application (rest @ t1 @ t2) = []"
    using decided(4) await_environment_filter(1) [OF decided(2)] by simp
  then show ?thesis by blast
qed

lemma before_by_prefix:
  assumes "t = pre @ rest" "filter p rest = []" "filter q pre = []"
    and "i < length t" "j < length t" "p (t ! i)" "q (t ! j)"
  shows "i < j"
proof -
  have i: "i < length pre"
  proof (rule ccontr)
    assume "\<not> i < length pre"
    with assms(1,4) have "t ! i = rest ! (i - length pre)" "i - length pre < length rest"
      by (auto simp: nth_append)
    then have "t ! i \<in> set rest" by simp
    with assms(2,6) show False by (auto simp: filter_empty_conv)
  qed
  have j: "\<not> j < length pre"
  proof
    assume "j < length pre"
    with assms(1) have "t ! j \<in> set pre" by (simp add: nth_append)
    with assms(3,7) show False by (auto simp: filter_empty_conv)
  qed
  from i j show ?thesis by simp
qed

text \<open>
  Claim C2. In every run, and in every run cut short by an error, \<open>create_application\<close>
  is called exactly once, with the description \<open><name> Application\<close>, when the query
  for the application name returns no application, and not at all when it returns some;
  and every \<open>create_application\<close> call precedes every \<open>create_application_version\<close>
  call of the trace.
\<close>
theorem create_application_iff_absent:
  assumes "describe_applications w = Inr applications"
    and "(\<exists>r. pipeline w s = (s', t, r)) \<or> (\<exists>r. main w s = Some (s', t, r))"
  shows "filter is_create_application t =
           (if applications = []
            then [CreateApplication (arguments_application_name w)
                    (arguments_application_name w @ '' Application'')]
            else []) \<and>
         (\<forall>i j. i < length t \<and> j < length t \<and> is_create_application (t ! i) \<and>
                is_create_application_version (t ! j) \<longrightarrow> i < j)"
proof -
  from assms(2) pipeline_prefix [of w s] main_prefix obtain rest where
    t: "t = fst (ensure_application w) @ rest" and rest: "filter is_create_application rest = []"
    by fastforce
  have "filter is_create_application t = filter is_create_application (fst (ensure_application w))"
    by (simp add: t rest)
  then have count: "filter is_create_application t =
           (if applications = []
            then [CreateApplication (arguments_application_name w)
                    (arguments_application_name w @ '' Application'')]
            else [])"
    using assms(1) by (simp add: ensure_application_filter)
  have order: "i < j" if "i < length t" "j < length t" "is_create_application (t ! i)"
    "is_create_application_version (t ! j)" for i j
    using t rest ensure_application_filter(2) [of w] that by (rule before_by_prefix)
  from count order show ?thesis by blast
qed

subsection \<open>Evaluating a run\<close>

lemma pipeline_package:
  assumes "pipeline w s = (s1, t, Inr pkg)"
  shows "\<exists>t3. package_application w s = (s1, t3, Inr pkg)"
  using assms
  by (auto simp: pipeline_def Let_def split: prod.splits sum.splits)

lemma register_version_filter_version:
  "filter is_create_application_version (fst (register_version w pkg b)) =
     [CreateApplicationVersion (arguments_application_name w) pkg b (pkg @ ''.zip'') False True]"
  by (auto simp: register_version_def print_response_def Let_def split: sum.splits)

lemma pipeline_registers:
  assumes "pipeline w s = (s1, t, Inr pkg)"
  shows "\<exists>b. snd (upload_application_version w s1 pkg) = Inr b \<and>
           filter is_create_application_version t =
             [CreateApplicationVersion (arguments_application_name w) pkg b (pkg @ ''.zip'')
                False True]"
proof -
  from assms have
    "fst (pipeline w s) = s1" "fst (snd (pipeline w s)) = t" "snd (snd (pipeline w s)) = Inr pkg"
    by simp_all
  then show ?thesis
    by (auto simp: pipeline_def Let_def case_prod_beta ensure_application_filter
        build_application_filter package_application_filter upload_application_version_filter
        register_version_filter_version split: sum.splits)
qed

lemma main_eval:
  assumes "pipeline w s = (s1, t0, Inr pkg)" and "await_environment w = Some (t1, Inr cfg)"
  shows "main w s =
           Some (s1, t0 @ t1 @ fst (create_or_update w pkg cfg), snd (create_or_update w pkg cfg))"
  using assms by (simp add: main_def case_prod_beta)

lemma pipeline_eval:
  assumes "snd (ensure_application w) = Inr ()" and "snd (build_application w) = Inr ()"
    and "package_application w s = (s1, t3, Inr pkg)"
    and "snd (upload_application_version w s1 pkg) = Inr b"
    and "snd (register_version w pkg b) = Inr ()"
  shows "pipeline w s = (s1, fst (snd (pipeline w s)), Inr pkg)"
proof -
  have "fst (pipeline w s) = s1 \<and> snd (snd (pipeline w s)) = Inr pkg"
    using assms by (simp add: pipeline_def case_prod_beta Let_def)
  then show ?thesis
    by (metis prod.collapse)
qed

lemma pipeline_eval_package_error:
  assumes "snd (ensure_application w) = Inr ()" and "snd (build_application w) = Inr ()"
    and "package_application w s = (s1, t3, Inl e)"
  shows "pipeline w s = (s1, fst (snd (pipeline w s)), Inl e)"
proof -
  have "fst (pipeline w s) = s1 \<and> snd (snd (pipeline w s)) = Inl e"
    using assms by (simp add: pipeline_def case_prod_beta Let_def)
  then show ?thesis
    by (metis prod.collapse)
qed

text \<open>Each step reads only its own part of the surroundings.\<close>

lemma package_application_cong:
  "listdir_libs w = listdir_libs w' \<Longrightarrow> read_file w = read_file w' \<Longrightarrow>
   localtime w = localtime w' \<Longrightarrow> isdir w = isdir w' \<Longrightarrow>
   package_application w s = package_application w' s"
  by (simp add: package_application_def glob_jar_def cong: list.case_cong)

lemma upload_application_version_cong:
  "region_name w = region_name w' \<Longrightarrow>
   get_caller_identity_Account w = get_caller_identity_Account w' \<Longrightarrow>
   buckets_all w = buckets_all w' \<Longrightarrow> create_bucket w = create_bucket w' \<Longrightarrow>
   put_object w = put_object w' \<Longrightarrow>
   upload_application_version w s pkg = upload_application_version w' s pkg"
  by (simp add: upload_application_version_def put_archive_def
        cong: sum.case_cong option.case_cong if_cong)

lemma ensure_application_cong:
  "arguments_application_name w = arguments_application_name w' \<Longrightarrow>
   describe_applications w = describe_applications w' \<Longrightarrow>
   create_application w = create_application w' \<Longrightarrow>
   ensure_application w = ensure_application w'"
  by (simp add: ensure_application_def cong: sum.case_cong if_cong)

lemma register_version_cong:
  "arguments_application_name w = arguments_application_name w' \<Longrightarrow>
   create_application_version w = create_application_version w' \<Longrightarrow>
   register_version w pkg b = register_version w' pkg b"
  by (simp add: register_version_def cong: sum.case_cong)

lemma create_or_update_cong:
  "arguments_application_name w = arguments_application_name w' \<Longrightarrow>
   arguments_environment_name w = arguments_environment_name w' \<Longrightarrow>
   create_environment w = create_environment w' \<Longrightarrow>
   update_environment w = update_environment w' \<Longrightarrow>
   create_or_update w pkg cfg = create_or_update w' pkg cfg"
  by (simp add: create_or_update_def environment_name_def cong: sum.case_cong if_cong)

lemma await_environment_cong:
  assumes "arguments_application_name w = arguments_application_name w'"
    and "arguments_environment_name w = arguments_environment_name w'"
    and "describe_environments w = describe_environments w'"
  shows "await_environment w = await_environment w'"
proof -
  have ip: "in_progress_at w k = in_progress_at w' k" for k
    by (simp add: in_progress_at_def assms)
  have pt: "polling_trace w printed n = polling_trace w' printed n" for printed n
    by (simp add: polling_trace_def waiting_notice_def environment_name_def assms)
  have en: "environment_name w = environment_name w'"
    by (simp add: environment_name_def assms)
  show ?thesis
  proof (cases "\<exists>m. \<not> in_progress_at w m")
    case True
    then obtain m where m: "\<not> in_progress_at w m" ..
    define n where "n = (LEAST m. \<not> in_progress_at w m)"
    have stop: "\<not> in_progress_at w n"
      unfolding n_def using m by (rule LeastI)
    have before: "\<forall>k<n. in_progress_at w k"
      unfolding n_def using not_less_Least by blast
    from stop before have stop': "\<not> in_progress_at w' n" and before': "\<forall>k<n. in_progress_at w' k"
      by (simp_all add: ip)
    from await_environment_run [OF before stop] await_environment_run [OF before' stop']
    show ?thesis
      by (simp add: pt en assms)
  next
    case False
    then have "\<forall>k. in_progress_at w k" "\<forall>k. in_progress_at w' k"
      by (simp_all add: ip)
    then show ?thesis
      by (simp add: await_environment_None)
  qed
qed

subsection \<open>The decision and the wait before it\<close>

lemma quiescent_cases:
  "\<not> operation_in_progress cfg \<longleftrightarrow>
     cfg = [] \<or> Status (hd cfg) = ''Ready'' \<or> Status (hd cfg) = ''Terminated''"
  by (auto simp: operation_in_progress_def)

lemma await_environment_quiescent:
  assumes "await_environment w = Some (t1, Inr cfg)"
  shows "\<not> operation_in_progress cfg"
proof -
  from await_environment_Some [OF assms] obtain n where
    "\<not> in_progress_at w n" "Inr cfg = describe_environments w n"
    by blast
  then show ?thesis
    by (simp add: in_progress_at_def split: sum.splits)
qed

text \<open>
  Claim C1. When the run reaches the decision, the description the wait loop ended with
  is empty or has the status \<open>Terminated\<close> or \<open>Ready\<close>. In the first two cases the
  trace of the run holds exactly one request to the environment, a \<open>create_environment\<close>
  whose CNAME prefix is the full environment name; in the third exactly one, an
  \<open>update_environment\<close>. The request comes after the pipeline and the polls, and its
  version label is the name that \<open>package_application\<close> returned.
\<close>
theorem decision_exhaustive_exclusive:
  assumes "main w s = Some (s', t, r)"
    and "pipeline w s = (s1, t0, Inr pkg)"
    and "await_environment w = Some (t1, Inr cfg)"
  shows "(cfg = [] \<or> Status (hd cfg) = ''Terminated'' \<or> Status (hd cfg) = ''Ready'') \<and>
         (\<exists>t3. package_application w s = (s1, t3, Inr pkg)) \<and>
         (\<exists>t2. t = t0 @ t1 @ t2 \<and> filter is_environment_request (t0 @ t1) = []) \<and>
         (cfg = [] \<or> Status (hd cfg) = ''Terminated'' \<longrightarrow>
            filter is_environment_request t =
              [CreateEnvironment (arguments_application_name w) (environment_name w)
                 (environment_name w @ '' Environment'') (environment_name w) pkg]) \<and>
         (cfg \<noteq> [] \<and> Status (hd cfg) = ''Ready'' \<longrightarrow>
            filter is_environment_request t =
              [UpdateEnvironment (arguments_application_name w) (environment_name w) pkg])"
proof -
  from await_environment_quiescent [OF assms(3)] have
    q: "cfg = [] \<or> Status (hd cfg) = ''Terminated'' \<or> Status (hd cfg) = ''Ready''"
    by (auto simp: quiescent_cases)
  note p = pipeline_package [OF assms(2)]
  from main_eval [OF assms(2,3)] assms(1) have
    t: "t = t0 @ t1 @ fst (create_or_update w pkg cfg)"
    by simp
  have f0: "filter is_environment_request t0 = []"
    using pipeline_filter(2) [of w s] assms(2) by simp
  have f1: "filter is_environment_request t1 = []"
    using assms(3) by (rule await_environment_filter(3))
  have ft: "filter is_environment_request t =
      [if cfg = [] \<or> Status (hd cfg) = ''Terminated''
       then CreateEnvironment (arguments_application_name w) (environment_name w)
              (environment_name w @ '' Environment'') (environment_name w) pkg
       else UpdateEnvironment (arguments_application_name w) (environment_name w) pkg]"
    unfolding t by (simp add: f0 f1 create_or_update_filter(1))
  have c: "cfg = [] \<or> Status (hd cfg) = ''Terminated'' \<longrightarrow>
            filter is_environment_request t =
              [CreateEnvironment (arguments_application_name w) (environment_name w)
                 (environment_name w @ '' Environment'') (environment_name w) pkg]"
    unfolding ft by simp
  have u: "cfg \<noteq> [] \<and> Status (hd cfg) = ''Ready'' \<longrightarrow>
            filter is_environment_request t =
              [UpdateEnvironment (arguments_application_name w) (environment_name w) pkg]"
    unfolding ft by simp
  have d: "\<exists>t2. t = t0 @ t1 @ t2 \<and> filter is_environment_request (t0 @ t1) = []"
    using t f0 f1 by simp
  from q p d c u show ?thesis by (intro conjI)
qed

lemma main_request_decided:
  assumes "main w s = Some (s', t, r)" and "\<exists>e \<in> set t. is_environment_request e"
  obtains pkg t0 t1 cfg t2 where "pipeline w s = (s', t0, Inr pkg)"
    "await_environment w = Some (t1, Inr cfg)" "create_or_update w pkg cfg = (t2, r)"
    "t = t0 @ t1 @ t2"
  using assms(1)
proof (cases rule: main_cases)
  case (pipeline_error e)
  then have "filter is_environment_request t = []"
    using pipeline_filter(2) [of w s] by simp
  with assms(2) show ?thesis by (auto simp: filter_empty_conv)
next
  case (poll_error pkg t0 t1 e)
  then have "filter is_environment_request t = []"
    using pipeline_filter(2) [of w s] await_environment_filter(3) [OF poll_error(2)] by simp
  with assms(2) show ?thesis by (auto simp: filter_empty_conv)
next
  case (decided pkg t0 t1 cfg t2)
  then show ?thesis by (rule that)
qed

text \<open>
  Claim C3. A run whose trace holds a request to create or update the environment has
  polled \<open>n + 1\<close> times: the first \<open>n\<close> answers had an operation in progress, the last
  one was empty or \<open>Ready\<close> or \<open>Terminated\<close>, every poll after the first was preceded
  by a sleep of 30 seconds, and the request comes after the last poll. There is no bound
  on \<open>n\<close>: for every \<open>n\<close> the loop makes that many rounds and returns; and when every
  answer has an operation in progress the loop never returns and no request is issued:
  after any number of rounds the trace of the loop holds no request.
\<close>
theorem no_request_while_in_progress:
  "(\<forall>s' t r. main w s = Some (s', t, r) \<and> (\<exists>e \<in> set t. is_environment_request e) \<longrightarrow>
      (\<exists>n cfg pre post.
         (\<forall>k<n. in_progress_at w k) \<and>
         describe_environments w n = Inr cfg \<and>
         (cfg = [] \<or> Status (hd cfg) = ''Ready'' \<or> Status (hd cfg) = ''Terminated'') \<and>
         t = pre @ DescribeEnvironments (arguments_application_name w) [environment_name w] #
               polling_trace w False n @ post \<and>
         filter is_environment_request pre = [] \<and>
         filter is_describe_environments pre = [] \<and>
         filter is_environment_request (polling_trace w False n) = [] \<and>
         filter is_describe_environments post = [] \<and>
         length (filter is_describe_environments t) = Suc n)) \<and>
   (\<forall>n. (\<forall>k<n. in_progress_at w k) \<and> \<not> in_progress_at w n \<longrightarrow>
      await_environment w =
        Some (DescribeEnvironments (arguments_application_name w) [environment_name w] #
                polling_trace w False n,
              describe_environments w n)) \<and>
   ((\<forall>k. in_progress_at w k) \<longrightarrow>
      await_environment w = None \<and>
      (main w s = None \<or>
       (\<exists>s' t e. main w s = Some (s', t, Inl e) \<and> filter is_environment_request t = []))) \<and>
   (\<forall>cfg k.
      filter is_environment_request
        (wait_rounds w 0 cfg False
           [DescribeEnvironments (arguments_application_name w) [environment_name w]] k) = [])"
proof (intro conjI allI impI)
  fix s' t r
  assume a: "main w s = Some (s', t, r) \<and> (\<exists>e \<in> set t. is_environment_request e)"
  then have m: "main w s = Some (s', t, r)" and e: "\<exists>e \<in> set t. is_environment_request e"
    by simp_all
  from m e obtain pkg t0 t1 cfg t2 where
    p: "pipeline w s = (s', t0, Inr pkg)" and
    aw: "await_environment w = Some (t1, Inr cfg)" and
    cu: "create_or_update w pkg cfg = (t2, r)" and
    t: "t = t0 @ t1 @ t2"
    by (rule main_request_decided)
  from await_environment_Some [OF aw] obtain n where
    before: "\<forall>k<n. in_progress_at w k" and
    t1: "t1 = DescribeEnvironments (arguments_application_name w) [environment_name w] #
                 polling_trace w False n" and
    last: "Inr cfg = describe_environments w n"
    by blast
  from await_environment_quiescent [OF aw] have
    q: "cfg = [] \<or> Status (hd cfg) = ''Ready'' \<or> Status (hd cfg) = ''Terminated''"
    by (simp add: quiescent_cases)
  have f0: "filter is_environment_request t0 = []" "filter is_describe_environments t0 = []"
    using pipeline_filter(2,3) [of w s] p by simp_all
  have f2: "filter is_describe_environments t2 = []"
    using create_or_update_filter(4) [of w pkg cfg] cu by simp
  have len: "length (filter is_describe_environments t) = Suc n"
    unfolding t t1 by (simp add: f0 f2 polling_trace_describe)
  have tt: "t = t0 @ DescribeEnvironments (arguments_application_name w) [environment_name w] #
               polling_trace w False n @ t2"
    unfolding t t1 by simp
  show "\<exists>n cfg pre post.
         (\<forall>k<n. in_progress_at w k) \<and>
         describe_environments w n = Inr cfg \<and>
         (cfg = [] \<or> Status (hd cfg) = ''Ready'' \<or> Status (hd cfg) = ''Terminated'') \<and>
         t = pre @ DescribeEnvironments (arguments_application_name w) [environment_name w] #
               polling_trace w False n @ post \<and>
         filter is_environment_request pre = [] \<and>
         filter is_describe_environments pre = [] \<and>
         filter is_environment_request (polling_trace w False n) = [] \<and>
         filter is_describe_environments post = [] \<and>
         length (filter is_describe_environments t) = Suc n"
    apply (rule exI [of _ n], rule exI [of _ cfg], rule exI [of _ t0], rule exI [of _ t2])
    apply (intro conjI)
    by (rule before last [symmetric] q tt f0 f2 len polling_trace_filter(3))+
next
  fix n
  assume h: "(\<forall>k<n. in_progress_at w k) \<and> \<not> in_progress_at w n"
  show "await_environment w =
        Some (DescribeEnvironments (arguments_application_name w) [environment_name w] #
                polling_trace w False n,
              describe_environments w n)"
    by (rule await_environment_run [OF conjunct1 [OF h] conjunct2 [OF h]])
next
  assume "\<forall>k. in_progress_at w k"
  then show "await_environment w = None"
    by (rule await_environment_None)
next
  assume "\<forall>k. in_progress_at w k"
  then have n: "await_environment w = None"
    by (rule await_environment_None)
  show "main w s = None \<or>
       (\<exists>s' t e. main w s = Some (s', t, Inl e) \<and> filter is_environment_request t = [])"
  proof (cases "snd (snd (pipeline w s))")
    case (Inl e)
    then obtain s1 t0 where p: "pipeline w s = (s1, t0, Inl e)"
      by (cases "pipeline w s") auto
    then have "main w s = Some (s1, t0, Inl e)"
      by (simp add: main_def)
    moreover have "filter is_environment_request t0 = []"
      using pipeline_filter(2) [of w s] p by simp
    ultimately show ?thesis by blast
  next
    case (Inr pkg)
    then obtain s1 t0 where p: "pipeline w s = (s1, t0, Inr pkg)"
      by (cases "pipeline w s") auto
    then have "main w s = None"
      by (simp add: main_def n)
    then show ?thesis ..
  qed
next
  fix cfg k
  show "filter is_environment_request
        (wait_rounds w 0 cfg False
           [DescribeEnvironments (arguments_application_name w) [environment_name w]] k) = []"
    by (simp add: requests_wait_rounds)
qed

subsection \<open>Runs in the concrete surroundings\<close>

lemma pipeline_like_fresh:
  assumes "snd (ensure_application w) = Inr ()" and "snd (build_application w) = Inr ()"
    and "listdir_libs w = listdir_libs fresh_world" and "read_file w = read_file fresh_world"
    and "localtime w = localtime fresh_world" and "isdir w = isdir fresh_world"
    and "snd (upload_application_version w (fst (package_application fresh_world initial_state))
           ''shop-1.0-20240107-130059'') = Inr b"
    and "snd (register_version w ''shop-1.0-20240107-130059'' b) = Inr ()"
  shows "pipeline w initial_state =
           (fst (package_application fresh_world initial_state),
            fst (snd (pipeline w initial_state)), Inr ''shop-1.0-20240107-130059'')"
proof -
  have "package_application w initial_state = package_application fresh_world initial_state"
    using assms(3-6) by (rule package_application_cong)
  then obtain t3 where
    "package_application w initial_state =
       (fst (package_application fresh_world initial_state), t3, Inr ''shop-1.0-20240107-130059'')"
    by (simp add: package_fresh)
  from pipeline_eval [OF assms(1,2) this assms(7,8)] show ?thesis .
qed

lemma statuses [simp]:
  "operation_in_progress [] = False"
  "operation_in_progress [\<lparr>Status = ''Ready''\<rparr>] = False"
  "operation_in_progress [\<lparr>Status = ''Terminated''\<rparr>] = False"
  "operation_in_progress [\<lparr>Status = ''Updating''\<rparr>] = True"
  by (simp_all add: operation_in_progress_def)

lemma pipeline_fresh:
  "pipeline fresh_world initial_state =
     (fst (package_application fresh_world initial_state),
      fst (snd (pipeline fresh_world initial_state)), Inr ''shop-1.0-20240107-130059'')"
proof (rule pipeline_like_fresh)
  show "snd (ensure_application fresh_world) = Inr ()"
    by (simp add: Let_def ensure_application_def fresh_world_def)
  show "snd (build_application fresh_world) = Inr ()"
    by (simp add: Let_def build_application_def fresh_world_def)
  show "snd (upload_application_version fresh_world
          (fst (package_application fresh_world initial_state)) ''shop-1.0-20240107-130059'') =
        Inr ''elasticbeanstalk-eu-west-1-123456789012''"
    by (simp add: upload_fresh)
  show "snd (register_version fresh_world ''shop-1.0-20240107-130059''
          ''elasticbeanstalk-eu-west-1-123456789012'') = Inr ()"
    by (simp add: Let_def register_version_def fresh_world_def)
qed simp_all

lemma await_fresh:
  "await_environment fresh_world =
     Some ([DescribeEnvironments ''shop'' [''shop-prod'']], Inr [])"
proof -
  have "\<forall>k<0::nat. in_progress_at fresh_world k" by simp
  moreover have "\<not> in_progress_at fresh_world 0"
    by (simp add: in_progress_at_def fresh_world_def)
  ultimately have "await_environment fresh_world =
      Some (DescribeEnvironments (arguments_application_name fresh_world)
              [environment_name fresh_world] # polling_trace fresh_world False 0,
            describe_environments fresh_world 0)"
    by (rule await_environment_run)
  then show ?thesis
    by (simp add: polling_trace_0 environment_name_def fresh_world_def)
qed

lemma main_fresh:
  "main fresh_world initial_state =
     Some (fst (package_application fresh_world initial_state),
           fst (snd (pipeline fresh_world initial_state)) @
           [DescribeEnvironments ''shop'' [''shop-prod'']] @
           fst (create_or_update fresh_world ''shop-1.0-20240107-130059'' []),
           snd (create_or_update fresh_world ''shop-1.0-20240107-130059'' []))"
  by (rule main_eval [OF pipeline_fresh await_fresh])

lemma pipeline_updating:
  "pipeline updating_world initial_state =
     (fst (package_application fresh_world initial_state),
      fst (snd (pipeline updating_world initial_state)), Inr ''shop-1.0-20240107-130059'')"
proof (rule pipeline_like_fresh)
  show "snd (ensure_application updating_world) = Inr ()"
    by (simp add: Let_def ensure_application_def updating_world_def fresh_world_def)
  show "snd (build_application updating_world) = Inr ()"
    by (simp add: Let_def build_application_def updating_world_def fresh_world_def)
  show "snd (upload_application_version updating_world
          (fst (package_application fresh_world initial_state)) ''shop-1.0-20240107-130059'') =
        Inr ''elasticbeanstalk-eu-west-1-123456789012''"
    unfolding state_fresh
    by (simp add: upload_application_version_def put_archive_def updating_world_def
          fresh_world_def source_bundle_s3_bucket_prefix_def Let_def)
  show "snd (register_version updating_world ''shop-1.0-20240107-130059''
          ''elasticbeanstalk-eu-west-1-123456789012'') = Inr ()"
    by (simp add: Let_def register_version_def updating_world_def fresh_world_def)
qed (simp_all add: updating_world_def)

lemma in_progress_updating:
  "in_progress_at updating_world k \<longleftrightarrow> k < 2"
  by (simp add: in_progress_at_def updating_world_def)

lemma await_updating:
  "await_environment updating_world =
     Some (DescribeEnvironments ''shop'' [''shop-prod''] # polling_trace updating_world False 2,
           Inr [\<lparr>Status = ''Ready''\<rparr>])"
proof -
  have "\<forall>k<2. in_progress_at updating_world k"
    by (simp add: in_progress_updating)
  moreover have "\<not> in_progress_at updating_world 2"
    by (simp add: in_progress_updating)
  ultimately have "await_environment updating_world =
      Some (DescribeEnvironments (arguments_application_name updating_world)
              [environment_name updating_world] # polling_trace updating_world False 2,
            describe_environments updating_world 2)"
    by (rule await_environment_run)
  then show ?thesis
    by (simp add: environment_name_def updating_world_def fresh_world_def)
qed

lemma main_updating:
  "main updating_world initial_state =
     Some (fst (package_application fresh_world initial_state),
           fst (snd (pipeline updating_world initial_state)) @
           (DescribeEnvironments ''shop'' [''shop-prod''] # polling_trace updating_world False 2) @
           fst (create_or_update updating_world ''shop-1.0-20240107-130059'' [\<lparr>Status = ''Ready''\<rparr>]),
           snd (create_or_update updating_world ''shop-1.0-20240107-130059'' [\<lparr>Status = ''Ready''\<rparr>]))"
  by (rule main_eval [OF pipeline_updating await_updating])

lemma pipeline_terminated:
  "pipeline terminated_world initial_state =
     (fst (package_application fresh_world initial_state),
      fst (snd (pipeline terminated_world initial_state)), Inr ''shop-1.0-20240107-130059'')"
proof (rule pipeline_like_fresh)
  show "snd (ensure_application terminated_world) = Inr ()"
    by (simp add: Let_def ensure_application_def terminated_world_def fresh_world_def)
  show "snd (build_application terminated_world) = Inr ()"
    by (simp add: Let_def build_application_def terminated_world_def fresh_world_def)
  show "snd (upload_application_version terminated_world
          (fst (package_application fresh_world initial_state)) ''shop-1.0-20240107-130059'') =
        Inr ''elasticbeanstalk-eu-west-1-123456789012''"
    unfolding state_fresh
    by (simp add: upload_application_version_def put_archive_def terminated_world_def
          fresh_world_def source_bundle_s3_bucket_prefix_def Let_def)
  show "snd (register_version terminated_world ''shop-1.0-20240107-130059''
          ''elasticbeanstalk-eu-west-1-123456789012'') = Inr ()"
    by (simp add: Let_def register_version_def terminated_world_def fresh_world_def)
qed (simp_all add: terminated_world_def)

lemma await_terminated:
  "await_environment terminated_world =
     Some ([DescribeEnvironments ''shop'' [''shop-prod'']], Inr [\<lparr>Status = ''Terminated''\<rparr>])"
proof -
  have "\<forall>k<0::nat. in_progress_at terminated_world k" by simp
  moreover have "\<not> in_progress_at terminated_world 0"
    by (simp add: in_progress_at_def terminated_world_def)
  ultimately have "await_environment terminated_world =
      Some (DescribeEnvironments (arguments_application_name terminated_world)
              [environment_name terminated_world] # polling_trace terminated_world False 0,
            describe_environments terminated_world 0)"
    by (rule await_environment_run)
  then show ?thesis
    by (simp add: polling_trace_0 environment_name_def terminated_world_def fresh_world_def)
qed

lemma main_terminated:
  "main terminated_world initial_state =
     Some (fst (package_application fresh_world initial_state),
           fst (snd (pipeline terminated_world initial_state)) @
           [DescribeEnvironments ''shop'' [''shop-prod'']] @
           fst (create_or_update terminated_world ''shop-1.0-20240107-130059''
                  [\<lparr>Status = ''Terminated''\<rparr>]),
           snd (create_or_update terminated_world ''shop-1.0-20240107-130059''
                  [\<lparr>Status = ''Terminated''\<rparr>]))"
  by (rule main_eval [OF pipeline_terminated await_terminated])

lemma world_names:
  "arguments_application_name fresh_world = ''shop''"
  "environment_name fresh_world = ''shop-prod''"
  "arguments_application_name updating_world = ''shop''"
  "environment_name updating_world = ''shop-prod''"
  "arguments_application_name terminated_world = ''shop''"
  "environment_name terminated_world = ''shop-prod''"
  by (simp_all add: environment_name_def updating_world_def terminated_world_def fresh_world_def)

lemma describe_updating_2:
  "describe_environments updating_world (Suc (Suc 0)) = Inr [\<lparr>Status = ''Ready''\<rparr>]"
  by (simp add: updating_world_def)

lemma trace_fresh:
  "fst (snd (the (run fresh_world))) =
     fst (snd (pipeline fresh_world initial_state)) @
     [DescribeEnvironments ''shop'' [''shop-prod'']] @
     fst (create_or_update fresh_world ''shop-1.0-20240107-130059'' [])"
  by (simp add: run_def main_fresh)

lemma trace_terminated:
  "fst (snd (the (run terminated_world))) =
     fst (snd (pipeline terminated_world initial_state)) @
     [DescribeEnvironments ''shop'' [''shop-prod'']] @
     fst (create_or_update terminated_world ''shop-1.0-20240107-130059''
            [\<lparr>Status = ''Terminated''\<rparr>])"
  by (simp add: run_def main_terminated)

lemma trace_updating:
  "fst (snd (the (run updating_world))) =
     fst (snd (pipeline updating_world initial_state)) @
     (DescribeEnvironments ''shop'' [''shop-prod''] # polling_trace updating_world False 2) @
     fst (create_or_update updating_world ''shop-1.0-20240107-130059'' [\<lparr>Status = ''Ready''\<rparr>])"
  by (simp add: run_def main_updating)

theorem decision_exhaustive_exclusive_witness:
  "filter is_environment_request (fst (snd (the (run fresh_world)))) =
     [CreateEnvironment ''shop'' ''shop-prod'' ''shop-prod Environment'' ''shop-prod''
        ''shop-1.0-20240107-130059''] \<and>
   filter is_environment_request (fst (snd (the (run terminated_world)))) =
     [CreateEnvironment ''shop'' ''shop-prod'' ''shop-prod Environment'' ''shop-prod''
        ''shop-1.0-20240107-130059''] \<and>
   filter is_environment_request (fst (snd (the (run updating_world)))) =
     [UpdateEnvironment ''shop'' ''shop-prod'' ''shop-1.0-20240107-130059'']"
proof -
  note f = decision_exhaustive_exclusive [OF main_fresh pipeline_fresh await_fresh,
      THEN conjunct2, THEN conjunct2, THEN conjunct2, THEN conjunct1]
  note t = decision_exhaustive_exclusive [OF main_terminated pipeline_terminated await_terminated,
      THEN conjunct2, THEN conjunct2, THEN conjunct2, THEN conjunct1]
  note u = decision_exhaustive_exclusive [OF main_updating pipeline_updating await_updating,
      THEN conjunct2, THEN conjunct2, THEN conjunct2, THEN conjunct2]
  from f have 1: "filter is_environment_request (fst (snd (the (run fresh_world)))) =
     [CreateEnvironment ''shop'' ''shop-prod'' ''shop-prod Environment'' ''shop-prod''
        ''shop-1.0-20240107-130059'']"
    unfolding trace_fresh by (simp add: world_names)
  from t have 2: "filter is_environment_request (fst (snd (the (run terminated_world)))) =
     [CreateEnvironment ''shop'' ''shop-prod'' ''shop-prod Environment'' ''shop-prod''
        ''shop-1.0-20240107-130059'']"
    unfolding trace_terminated by (simp add: world_names)
  from u have 3: "filter is_environment_request (fst (snd (the (run updating_world)))) =
     [UpdateEnvironment ''shop'' ''shop-prod'' ''shop-1.0-20240107-130059'']"
    unfolding trace_updating by (simp add: world_names)
  from 1 2 3 show ?thesis by (intro conjI)
qed

theorem create_application_iff_absent_witness:
  "describe_applications fresh_world = Inr [] \<and>
   filter is_create_application (fst (snd (the (run fresh_world)))) =
     [CreateApplication ''shop'' ''shop Application''] \<and>
   describe_applications updating_world = Inr [''shop''] \<and>
   filter is_create_application (fst (snd (the (run updating_world)))) = []"
proof -
  have a: "describe_applications fresh_world = Inr []"
    by (simp add: fresh_world_def)
  have b: "describe_applications updating_world = Inr [''shop'']"
    by (simp add: updating_world_def)
  have mf: "\<exists>r. main fresh_world initial_state =
      Some (fst (package_application fresh_world initial_state),
            fst (snd (the (run fresh_world))), r)"
    by (simp add: run_def main_fresh)
  have mu: "\<exists>r. main updating_world initial_state =
      Some (fst (package_application fresh_world initial_state),
            fst (snd (the (run updating_world))), r)"
    by (simp add: run_def main_updating)
  from create_application_iff_absent [OF a disjI2, OF mf]
  have 1: "filter is_create_application (fst (snd (the (run fresh_world)))) =
     [CreateApplication ''shop'' ''shop Application'']"
    by (simp add: world_names)
  from create_application_iff_absent [OF b disjI2, OF mu]
  have 2: "filter is_create_application (fst (snd (the (run updating_world)))) = []"
    by simp
  from a 1 b 2 show ?thesis by (intro conjI)
qed

theorem no_request_while_in_progress_witness:
  "await_environment updating_world =
     Some (DescribeEnvironments ''shop'' [''shop-prod''] #
             [Print (waiting_notice updating_world),
              Sleep 30, DescribeEnvironments ''shop'' [''shop-prod''],
              Sleep 30, DescribeEnvironments ''shop'' [''shop-prod'']],
           Inr [\<lparr>Status = ''Ready''\<rparr>]) \<and>
   length (filter is_describe_environments (fst (snd (the (run updating_world))))) = 3"
proof -
  note t = no_request_while_in_progress [of updating_world initial_state]
  have h: "(\<forall>k<2. in_progress_at updating_world k) \<and> \<not> in_progress_at updating_world 2"
    by (simp add: in_progress_updating)
  from t [THEN conjunct2, THEN conjunct1, rule_format, OF h]
  have 1: "await_environment updating_world =
     Some (DescribeEnvironments ''shop'' [''shop-prod''] #
             [Print (waiting_notice updating_world),
              Sleep 30, DescribeEnvironments ''shop'' [''shop-prod''],
              Sleep 30, DescribeEnvironments ''shop'' [''shop-prod'']],
           Inr [\<lparr>Status = ''Ready''\<rparr>])"
    by (simp add: polling_trace_def world_names numeral_2_eq_2 describe_updating_2)
  have "UpdateEnvironment ''shop'' ''shop-prod'' ''shop-1.0-20240107-130059''
      \<in> set (filter is_environment_request
          (fst (create_or_update updating_world ''shop-1.0-20240107-130059'' [\<lparr>Status = ''Ready''\<rparr>])))"
    by (simp add: create_or_update_filter(1) world_names)
  then have "UpdateEnvironment ''shop'' ''shop-prod'' ''shop-1.0-20240107-130059''
      \<in> set (fst (create_or_update updating_world ''shop-1.0-20240107-130059'' [\<lparr>Status = ''Ready''\<rparr>]))"
    by (rule filter_is_subset [THEN subsetD])
  then have r: "UpdateEnvironment ''shop'' ''shop-prod'' ''shop-1.0-20240107-130059''
      \<in> set (fst (snd (the (run updating_world))))"
    unfolding trace_updating by simp
  have m: "main updating_world initial_state =
      Some (the (run updating_world))"
    by (simp add: run_def main_updating)
  obtain s' t0 r0 where tr: "the (run updating_world) = (s', t0, r0)"
    by (cases "the (run updating_world)")
  from r tr have "\<exists>e \<in> set t0. is_environment_request e"
    by (auto intro: bexI [of _ "UpdateEnvironment ''shop'' ''shop-prod'' ''shop-1.0-20240107-130059''"])
  with m tr have "main updating_world initial_state = Some (s', t0, r0) \<and>
      (\<exists>e \<in> set t0. is_environment_request e)"
    by simp
  from t [THEN conjunct1, rule_format, OF this] obtain n where
    before: "\<forall>k<n. in_progress_at updating_world k" and
    len: "length (filter is_describe_environments t0) = Suc n" and
    stop: "\<exists>cfg. describe_environments updating_world n = Inr cfg \<and>
             (cfg = [] \<or> Status (hd cfg) = ''Ready'' \<or> Status (hd cfg) = ''Terminated'')"
    by (elim exE conjE) (rule that; (assumption | blast))
  from stop have "\<not> in_progress_at updating_world n"
    by (auto simp: in_progress_at_def operation_in_progress_def)
  with before have "n = 2"
    by (metis in_progress_updating less_irrefl linorder_neqE_nat)
  with len tr have 2: "length (filter is_describe_environments (fst (snd (the (run updating_world))))) = 3"
    by simp
  from 1 2 show ?thesis ..
qed

subsection \<open>The waiting notice\<close>

lemma count_rounds:
  "count_list (concat (replicate n [Sleep 30, DescribeEnvironments a ns])) (Print x) = 0"
  by (induction n) simp_all

lemma count_polling_trace:
  "count_list (polling_trace w False n) (Print (waiting_notice w)) = (if n = 0 then 0 else 1)"
  by (simp add: polling_trace_def count_rounds)

lemma nth_polling_trace:
  "0 < n \<Longrightarrow> polling_trace w False n ! 0 = Print (waiting_notice w)"
  by (simp add: polling_trace_def)

lemma notice_not_in_decision:
  "Print (waiting_notice w) \<notin> set (fst (create_or_update w pkg cfg))"
  by (auto simp: create_or_update_def waiting_notice_def print_response_def Let_def
        split: sum.splits)

lemma waiting_notice_returning:
  assumes "await_environment w = Some (t1, r1)"
  shows "\<exists>n. (\<forall>k<n. in_progress_at w k) \<and> \<not> in_progress_at w n \<and>
           (0 < n \<longleftrightarrow> in_progress_at w 0) \<and>
           length (filter is_describe_environments t1) = Suc n \<and>
           count_list t1 (Print (waiting_notice w)) = (if n = 0 then 0 else 1) \<and>
           (0 < n \<longrightarrow> t1 ! 1 = Print (waiting_notice w)) \<and>
           (\<forall>s s' t r. main w s = Some (s', t, r) \<longrightarrow>
              (\<exists>e. pipeline w s = (s', t, Inl e)) \<or>
              (\<exists>pkg t0 t2. pipeline w s = (s', t0, Inr pkg) \<and> t = t0 @ t1 @ t2 \<and>
                 Print (waiting_notice w) \<notin> set t2))"
proof -
  from await_environment_Some [OF assms] obtain n where
    before: "\<forall>k<n. in_progress_at w k" and
    stop: "\<not> in_progress_at w n" and
    t1: "t1 = DescribeEnvironments (arguments_application_name w) [environment_name w] #
                 polling_trace w False n"
    by blast
  have first: "0 < n \<longleftrightarrow> in_progress_at w 0"
  proof
    assume "0 < n"
    with before show "in_progress_at w 0" by blast
  next
    assume "in_progress_at w 0"
    with stop show "0 < n" by (cases n) auto
  qed
  have len: "length (filter is_describe_environments t1) = Suc n"
    unfolding t1 by (simp add: polling_trace_describe)
  have cnt: "count_list t1 (Print (waiting_notice w)) = (if n = 0 then 0 else 1)"
    unfolding t1 by (simp add: count_polling_trace)
  have pos: "0 < n \<longrightarrow> t1 ! 1 = Print (waiting_notice w)"
    unfolding t1 by (simp add: nth_polling_trace)
  have run: "(\<exists>e. pipeline w s = (s', t, Inl e)) \<or>
      (\<exists>pkg t0 t2. pipeline w s = (s', t0, Inr pkg) \<and> t = t0 @ t1 @ t2 \<and>
         Print (waiting_notice w) \<notin> set t2)"
    if m: "main w s = Some (s', t, r)" for s s' t r
    using m
  proof (cases rule: main_cases)
    case (pipeline_error e)
    then show ?thesis by blast
  next
    case (poll_error pkg t0 t1' e)
    with assms have "pipeline w s = (s', t0, Inr pkg) \<and> t = t0 @ t1 @ [] \<and>
        Print (waiting_notice w) \<notin> set []"
      by simp
    then show ?thesis by blast
  next
    case (decided pkg t0 t1' cfg t2)
    from decided(3) notice_not_in_decision [of w pkg cfg]
    have "Print (waiting_notice w) \<notin> set t2" by simp
    with decided assms have "pipeline w s = (s', t0, Inr pkg) \<and> t = t0 @ t1 @ t2 \<and>
        Print (waiting_notice w) \<notin> set t2"
      by simp
    then show ?thesis by blast
  qed
  have run': "\<forall>s s' t r. main w s = Some (s', t, r) \<longrightarrow>
              (\<exists>e. pipeline w s = (s', t, Inl e)) \<or>
              (\<exists>pkg t0 t2. pipeline w s = (s', t0, Inr pkg) \<and> t = t0 @ t1 @ t2 \<and>
                 Print (waiting_notice w) \<notin> set t2)"
    using run by (intro allI impI)
  show ?thesis
    apply (rule exI [of _ n])
    apply (intro conjI)
    by (rule before stop first len cnt pos run')+
qed

text \<open>
  Claim C4. When the wait ends after \<open>n\<close> rounds, the polls \<open>0\<close> to \<open>n - 1\<close> had an
  operation in progress, and the notice was printed once if \<open>n > 0\<close>, that is if the
  first poll had an operation in progress, and not at all if \<open>n = 0\<close>, whatever \<open>n\<close> is.
  The notice is the event right after the first poll, and the decision that follows the
  wait in a run does not print it. The same count holds at every moment of a wait that
  has not ended, or never ends: after any number of rounds the notice has been printed
  once if a round was made, and not at all otherwise.
\<close>
theorem waiting_notice_once:
  "(\<forall>t1 r1. await_environment w = Some (t1, r1) \<longrightarrow>
      (\<exists>n. (\<forall>k<n. in_progress_at w k) \<and> \<not> in_progress_at w n \<and>
           (0 < n \<longleftrightarrow> in_progress_at w 0) \<and>
           length (filter is_describe_environments t1) = Suc n \<and>
           count_list t1 (Print (waiting_notice w)) = (if n = 0 then 0 else 1) \<and>
           (0 < n \<longrightarrow> t1 ! 1 = Print (waiting_notice w)) \<and>
           (\<forall>s s' t r. main w s = Some (s', t, r) \<longrightarrow>
              (\<exists>e. pipeline w s = (s', t, Inl e)) \<or>
              (\<exists>pkg t0 t2. pipeline w s = (s', t0, Inr pkg) \<and> t = t0 @ t1 @ t2 \<and>
                 Print (waiting_notice w) \<notin> set t2)))) \<and>
   (\<forall>cfg k. describe_environments w 0 = Inr cfg \<longrightarrow>
      count_list
        (wait_rounds w 0 cfg False
           [DescribeEnvironments (arguments_application_name w) [environment_name w]] k)
        (Print (waiting_notice w)) =
      (if operation_in_progress cfg \<and> 0 < k then 1 else 0)) \<and>
   (\<forall>cfg t1 r1. describe_environments w 0 = Inr cfg \<and> await_environment w = Some (t1, r1) \<longrightarrow>
      (\<exists>k. \<forall>k'\<ge>k.
         wait_rounds w 0 cfg False
           [DescribeEnvironments (arguments_application_name w) [environment_name w]] k' = t1))"
proof (intro conjI allI impI)
  fix t1 r1
  assume "await_environment w = Some (t1, r1)"
  then show "\<exists>n. (\<forall>k<n. in_progress_at w k) \<and> \<not> in_progress_at w n \<and>
           (0 < n \<longleftrightarrow> in_progress_at w 0) \<and>
           length (filter is_describe_environments t1) = Suc n \<and>
           count_list t1 (Print (waiting_notice w)) = (if n = 0 then 0 else 1) \<and>
           (0 < n \<longrightarrow> t1 ! 1 = Print (waiting_notice w)) \<and>
           (\<forall>s s' t r. main w s = Some (s', t, r) \<longrightarrow>
              (\<exists>e. pipeline w s = (s', t, Inl e)) \<or>
              (\<exists>pkg t0 t2. pipeline w s = (s', t0, Inr pkg) \<and> t = t0 @ t1 @ t2 \<and>
                 Print (waiting_notice w) \<notin> set t2))"
    by (rule waiting_notice_returning)
next
  fix cfg k
  assume "describe_environments w 0 = Inr cfg"
  show "count_list
        (wait_rounds w 0 cfg False
           [DescribeEnvironments (arguments_application_name w) [environment_name w]] k)
        (Print (waiting_notice w)) =
      (if operation_in_progress cfg \<and> 0 < k then 1 else 0)"
    by (simp add: count_wait_rounds)
next
  fix cfg t1 r1
  assume a: "describe_environments w 0 = Inr cfg \<and> await_environment w = Some (t1, r1)"
  then have "wait_loop w 0 cfg False
      [DescribeEnvironments (arguments_application_name w) [environment_name w]] = Some (t1, r1)"
    by (auto simp: await_environment_def Let_def)
  from wait_rounds_agrees [OF this]
  show "\<exists>k. \<forall>k'\<ge>k.
         wait_rounds w 0 cfg False
           [DescribeEnvironments (arguments_application_name w) [environment_name w]] k' = t1"
    by simp
qed

theorem waiting_notice_once_witness:
  "count_list (fst (the (await_environment updating_world)))
     (Print (waiting_notice updating_world)) = 1 \<and>
   count_list (fst (the (await_environment fresh_world)))
     (Print (waiting_notice fresh_world)) = 0"
proof -
  from waiting_notice_once [THEN conjunct1, rule_format, OF await_updating] obtain n :: nat where
    f: "0 < n \<longleftrightarrow> in_progress_at updating_world 0" and
    c: "count_list (DescribeEnvironments ''shop'' [''shop-prod''] # polling_trace updating_world False 2)
          (Print (waiting_notice updating_world)) = (if n = 0 then 0 else 1)"
    by (elim exE conjE) (rule that; assumption)
  from f have "n \<noteq> 0" by (simp add: in_progress_updating)
  with c have 1: "count_list (fst (the (await_environment updating_world)))
     (Print (waiting_notice updating_world)) = 1"
    by (simp add: await_updating)
  from waiting_notice_once [THEN conjunct1, rule_format, OF await_fresh] obtain m :: nat where
    f': "0 < m \<longleftrightarrow> in_progress_at fresh_world 0" and
    c': "count_list [DescribeEnvironments ''shop'' [''shop-prod'']]
          (Print (waiting_notice fresh_world)) = (if m = 0 then 0 else 1)"
    by (elim exE conjE) (rule that; assumption)
  have "\<not> in_progress_at fresh_world 0"
    by (simp add: in_progress_at_def fresh_world_def)
  with f' have "m = 0" by simp
  with c' have 2: "count_list (fst (the (await_environment fresh_world)))
     (Print (waiting_notice fresh_world)) = 0"
    by (simp add: await_fresh)
  from 1 2 show ?thesis ..
qed

subsection \<open>A failed build, a missing artifact\<close>

lemma pipeline_cong:
  assumes "ensure_application w = ensure_application w'"
    and "build_application w = build_application w'"
    and "\<And>s. package_application w s = package_application w' s"
    and "\<And>s pkg. upload_application_version w s pkg = upload_application_version w' s pkg"
    and "\<And>pkg b. register_version w pkg b = register_version w' pkg b"
  shows "pipeline w s = pipeline w' s"
  by (simp add: pipeline_def assms cong: prod.case_cong sum.case_cong)

lemma main_cong:
  assumes "pipeline w s = pipeline w' s"
    and "await_environment w = await_environment w'"
    and "\<And>pkg cfg. create_or_update w pkg cfg = create_or_update w' pkg cfg"
  shows "main w s = main w' s"
  by (simp add: main_def assms cong: prod.case_cong sum.case_cong option.case_cong)

text \<open>
  Claim C7, as amended. \<open>build_application\<close> reads the two captured streams and never
  the exit status: after any exit status it prints the streams and returns, and the run
  goes on to packaging, upload and registration exactly as after exit status 0.
\<close>
theorem build_exit_status_ignored:
  assumes "gradlew_build w = Inr (output, err, returncode)"
  shows "build_application w =
           ([Rmtree build_path, Chdir_script_dir, Popen [''./gradlew'', ''build'']] @
            print_result output err, Inr ()) \<and>
         pipeline w s = pipeline (w\<lparr>gradlew_build := Inr (output, err, 0)\<rparr>) s \<and>
         main w s = main (w\<lparr>gradlew_build := Inr (output, err, 0)\<rparr>) s"
proof -
  let ?w = "w\<lparr>gradlew_build := Inr (output, err, 0)\<rparr>"
  have b: "build_application w =
           ([Rmtree build_path, Chdir_script_dir, Popen [''./gradlew'', ''build'']] @
            print_result output err, Inr ())"
    using assms by (simp add: build_application_def)
  have b': "build_application w = build_application ?w"
    using assms by (simp add: build_application_def)
  have e: "ensure_application w = ensure_application ?w"
    by (rule ensure_application_cong) simp_all
  have p: "package_application w s = package_application ?w s" for s
    by (rule package_application_cong) simp_all
  have u: "upload_application_version w s pkg = upload_application_version ?w s pkg" for s pkg
    by (rule upload_application_version_cong) simp_all
  have r: "register_version w pkg b = register_version ?w pkg b" for pkg b
    by (rule register_version_cong) simp_all
  have a: "await_environment w = await_environment ?w"
    by (rule await_environment_cong) simp_all
  have c: "create_or_update w pkg cfg = create_or_update ?w pkg cfg" for pkg cfg
    by (rule create_or_update_cong) simp_all
  have pl: "pipeline w s = pipeline ?w s"
    using e b' p u r by (rule pipeline_cong)
  have m: "main w s = main ?w s"
    using pl a c by (rule main_cong)
  from b pl m show ?thesis by (intro conjI)
qed

lemma pipeline_failed_build:
  "pipeline failed_build_world initial_state =
     (fst (package_application fresh_world initial_state),
      fst (snd (pipeline failed_build_world initial_state)), Inr ''shop-1.0-20240107-130059'')"
proof (rule pipeline_like_fresh)
  show "snd (ensure_application failed_build_world) = Inr ()"
    by (simp add: Let_def ensure_application_def failed_build_world_def fresh_world_def)
  show "snd (build_application failed_build_world) = Inr ()"
    by (simp add: Let_def build_application_def failed_build_world_def fresh_world_def)
  show "snd (upload_application_version failed_build_world
          (fst (package_application fresh_world initial_state)) ''shop-1.0-20240107-130059'') =
        Inr ''elasticbeanstalk-eu-west-1-123456789012''"
    unfolding state_fresh
    by (simp add: upload_application_version_def put_archive_def failed_build_world_def
          fresh_world_def source_bundle_s3_bucket_prefix_def Let_def)
  show "snd (register_version failed_build_world ''shop-1.0-20240107-130059''
          ''elasticbeanstalk-eu-west-1-123456789012'') = Inr ()"
    by (simp add: Let_def register_version_def failed_build_world_def fresh_world_def)
qed (simp_all add: failed_build_world_def)

lemma await_failed_build:
  "await_environment failed_build_world =
     Some ([DescribeEnvironments ''shop'' [''shop-prod'']], Inr [])"
proof -
  have "await_environment failed_build_world = await_environment fresh_world"
    by (rule await_environment_cong) (simp_all add: failed_build_world_def)
  then show ?thesis by (simp add: await_fresh)
qed

lemma main_failed_build:
  "main failed_build_world initial_state =
     Some (fst (package_application fresh_world initial_state),
           fst (snd (pipeline failed_build_world initial_state)) @
           [DescribeEnvironments ''shop'' [''shop-prod'']] @
           fst (create_or_update failed_build_world ''shop-1.0-20240107-130059'' []),
           snd (create_or_update failed_build_world ''shop-1.0-20240107-130059'' []))"
  by (rule main_eval [OF pipeline_failed_build await_failed_build])

lemma upload_failed_build:
  "snd (upload_application_version failed_build_world
          (fst (package_application fresh_world initial_state)) ''shop-1.0-20240107-130059'') =
        Inr ''elasticbeanstalk-eu-west-1-123456789012''"
  unfolding state_fresh
  by (simp add: upload_application_version_def put_archive_def failed_build_world_def
        fresh_world_def source_bundle_s3_bucket_prefix_def Let_def)

theorem build_exit_status_ignored_witness:
  "gradlew_build failed_build_world = Inr ([], ''FAILURE: Build failed'', 1) \<and>
   build_application failed_build_world =
     ([Rmtree ''./build'', Chdir_script_dir, Popen [''./gradlew'', ''build''],
       Print ''FAILURE: Build failed''], Inr ()) \<and>
   main failed_build_world initial_state =
     main (failed_build_world\<lparr>gradlew_build := Inr ([], ''FAILURE: Build failed'', 0)\<rparr>)
       initial_state"
proof -
  have g: "gradlew_build failed_build_world = Inr ([], ''FAILURE: Build failed'', 1)"
    by (simp add: failed_build_world_def)
  from build_exit_status_ignored [OF g, of initial_state] g show ?thesis
    by (simp add: print_result_def build_path_def)
qed

text \<open>
  Claim C7 as stated fails: the build exits with status 1, and the run ends without an
  error after registering the version.
\<close>
theorem build_failure_counterexample:
  "gradlew_build failed_build_world = Inr ([], ''FAILURE: Build failed'', 1) \<and>
   run failed_build_world \<noteq> None \<and>
   snd (snd (the (run failed_build_world))) = Inr () \<and>
   filter is_create_application_version (fst (snd (the (run failed_build_world)))) =
     [CreateApplicationVersion ''shop'' ''shop-1.0-20240107-130059''
        ''elasticbeanstalk-eu-west-1-123456789012'' ''shop-1.0-20240107-130059.zip'' False True]"
proof -
  have g: "gradlew_build failed_build_world = Inr ([], ''FAILURE: Build failed'', 1)"
    by (simp add: failed_build_world_def)
  have n: "run failed_build_world \<noteq> None"
    by (simp add: run_def main_failed_build)
  have "snd (create_or_update failed_build_world ''shop-1.0-20240107-130059'' []) = Inr ()"
    by (simp add: create_or_update_def failed_build_world_def fresh_world_def Let_def)
  then have r: "snd (snd (the (run failed_build_world))) = Inr ()"
    by (simp add: run_def main_failed_build)
  from pipeline_registers [OF pipeline_failed_build] upload_failed_build
  have "filter is_create_application_version (fst (snd (pipeline failed_build_world initial_state))) =
     [CreateApplicationVersion (arguments_application_name failed_build_world)
        ''shop-1.0-20240107-130059'' ''elasticbeanstalk-eu-west-1-123456789012''
        (''shop-1.0-20240107-130059'' @ ''.zip'') False True]"
    by auto
  moreover have "arguments_application_name failed_build_world = ''shop''"
    by (simp add: failed_build_world_def fresh_world_def)
  ultimately have v: "filter is_create_application_version
       (fst (snd (the (run failed_build_world)))) =
     [CreateApplicationVersion ''shop'' ''shop-1.0-20240107-130059''
        ''elasticbeanstalk-eu-west-1-123456789012'' ''shop-1.0-20240107-130059.zip'' False True]"
    by (simp add: run_def main_failed_build create_or_update_filter(3))
  from g n r v show ?thesis by (intro conjI)
qed

text \<open>
  Claim C6 as stated fails: with no jar in the build output the run ends with the
  \<open>IndexError\<close> of the subscript, which nothing catches.
\<close>
theorem no_artifact_counterexample:
  "glob_jar no_jar_world = [] \<and>
   run no_jar_world \<noteq> None \<and>
   snd (snd (the (run no_jar_world))) = Inl IndexError"
proof -
  have p: "package_application no_jar_world initial_state = (initial_state, [], Inl IndexError)"
    by (simp add: package_application_def glob_no_jar)
  have e: "snd (ensure_application no_jar_world) = Inr ()"
    by (simp add: Let_def ensure_application_def no_jar_world_def fresh_world_def)
  have b: "snd (build_application no_jar_world) = Inr ()"
    by (simp add: Let_def build_application_def no_jar_world_def fresh_world_def)
  from pipeline_eval_package_error [OF e b p] obtain t0 where
    "pipeline no_jar_world initial_state = (initial_state, t0, Inl IndexError)"
    by blast
  then have "main no_jar_world initial_state = Some (initial_state, t0, Inl IndexError)"
    by (simp add: main_def)
  then show ?thesis
    by (simp add: run_def glob_no_jar)
qed

end
